theory Spec2Isabelle
  imports Complex_Main
begin

section \<open>Data model (the interfaces of src/unnamed/part_000)\<close>

text \<open>
  The interfaces of the repository as records. A JavaScript \<open>number\<close> that holds a
  count (stock, quantity) is an \<open>int\<close>; one that holds money or a percentage is a
  \<open>real\<close>, so rounding of doubles is outside this model. Optional fields are options.
  Field names are prefixed where two interfaces share a name.
\<close>

record batch =
  bid :: string
  batchNumber :: string
  expiryDate :: string
  stock :: int
  mrp :: real
  purchasePrice :: real

record product =
  pid :: string
  pname :: string
  company :: string
  hsnCode :: string
  gst :: real
  composition :: "string option"
  batches :: "batch list"

record cartItem =
  ci_productId :: string
  ci_productName :: string
  ci_composition :: "string option"
  ci_batchId :: string
  ci_batchNumber :: string
  ci_expiryDate :: string
  ci_hsnCode :: string
  ci_quantity :: int
  ci_mrp :: real
  ci_gst :: real
  ci_total :: real

record bill =
  bill_id :: string
  billNumber :: string
  date :: string
  customerName :: string
  items :: "cartItem list"
  subTotal :: real
  totalGst :: real
  grandTotal :: real

record purchaseLineItem =
  li_isNewProduct :: bool
  li_productName :: string
  li_company :: string
  li_hsnCode :: string
  li_gst :: real
  li_composition :: "string option"
  li_productId :: "string option"
  li_batchId :: "string option"
  li_batchNumber :: string
  li_expiryDate :: string
  li_quantity :: int
  li_mrp :: real
  li_purchasePrice :: real

record purchase =
  pu_id :: string
  invoiceNumber :: string
  invoiceDate :: string
  supplier :: string
  pu_items :: "purchaseLineItem list"
  totalAmount :: real

section \<open>The document store and its write batches\<close>

text \<open>
  The per-user collections. The React state \<open>products\<close> is the snapshot of the
  products collection, each document carrying its document id, so the store is the
  snapshot the handlers read.
\<close>

record store =
  products :: "product list"
  bills :: "bill list"
  purchases :: "purchase list"

text \<open>
  The writes the handlers stage in a Firestore \<open>writeBatch\<close>:
  \<open>set\<close> on a new reference, \<open>update\<close> of the field \<open>batches\<close> with an array or with
  \<open>arrayUnion\<close> of one element, \<open>update\<close> of a bill or purchase, and \<open>delete\<close>.
\<close>

datatype fbWrite =
    SetProduct string product
  | UpdateBatches string "batch list"
  | UnionBatch string batch
  | SetBill string bill
  | UpdateBill string bill
  | DeleteBill string
  | SetPurchase string purchase
  | UpdatePurchase string purchase
  | DeletePurchase string

definition hasProduct :: "product list \<Rightarrow> string \<Rightarrow> bool" where
  "hasProduct ps i = (find (\<lambda>p. pid p = i) ps \<noteq> None)"

definition arrayUnion :: "batch list \<Rightarrow> batch \<Rightarrow> batch list" where
  "arrayUnion bs b = (if b \<in> set bs then bs else bs @ [b])"

text \<open>
  One write against the store. \<open>set\<close> creates the document or replaces it, \<open>update\<close>
  of a document that does not exist is rejected (\<open>None\<close>), \<open>delete\<close> of a missing
  document does nothing.
\<close>

fun apply_write :: "store \<Rightarrow> fbWrite \<Rightarrow> store option" where
  "apply_write st (SetProduct i p) =
     Some (st\<lparr>products :=
       (if hasProduct (products st) i
        then map (\<lambda>q. if pid q = i then p\<lparr>pid := i\<rparr> else q) (products st)
        else products st @ [p\<lparr>pid := i\<rparr>])\<rparr>)"
| "apply_write st (UpdateBatches i bs) =
     (if hasProduct (products st) i
      then Some (st\<lparr>products :=
             map (\<lambda>q. if pid q = i then q\<lparr>batches := bs\<rparr> else q) (products st)\<rparr>)
      else None)"
| "apply_write st (UnionBatch i b) =
     (if hasProduct (products st) i
      then Some (st\<lparr>products :=
             map (\<lambda>q. if pid q = i then q\<lparr>batches := arrayUnion (batches q) b\<rparr> else q)
               (products st)\<rparr>)
      else None)"
| "apply_write st (SetBill i b) =
     Some (st\<lparr>bills :=
       (if find (\<lambda>c. bill_id c = i) (bills st) \<noteq> None
        then map (\<lambda>c. if bill_id c = i then b\<lparr>bill_id := i\<rparr> else c) (bills st)
        else bills st @ [b\<lparr>bill_id := i\<rparr>])\<rparr>)"
| "apply_write st (UpdateBill i b) =
     (if find (\<lambda>c. bill_id c = i) (bills st) \<noteq> None
      then Some (st\<lparr>bills :=
             map (\<lambda>c. if bill_id c = i then b\<lparr>bill_id := i\<rparr> else c) (bills st)\<rparr>)
      else None)"
| "apply_write st (DeleteBill i) =
     Some (st\<lparr>bills := filter (\<lambda>c. bill_id c \<noteq> i) (bills st)\<rparr>)"
| "apply_write st (SetPurchase i p) =
     Some (st\<lparr>purchases :=
       (if find (\<lambda>c. pu_id c = i) (purchases st) \<noteq> None
        then map (\<lambda>c. if pu_id c = i then p\<lparr>pu_id := i\<rparr> else c) (purchases st)
        else purchases st @ [p\<lparr>pu_id := i\<rparr>])\<rparr>)"
| "apply_write st (UpdatePurchase i p) =
     (if find (\<lambda>c. pu_id c = i) (purchases st) \<noteq> None
      then Some (st\<lparr>purchases :=
             map (\<lambda>c. if pu_id c = i then p\<lparr>pu_id := i\<rparr> else c) (purchases st)\<rparr>)
      else None)"
| "apply_write st (DeletePurchase i) =
     Some (st\<lparr>purchases := filter (\<lambda>c. pu_id c \<noteq> i) (purchases st)\<rparr>)"

text \<open>
  \<open>commit\<close> of a write batch, the entity store of the specification (an ordered list of
  writes, committed all or nothing): the staged writes are applied in the order they
  were staged, so a later \<open>update\<close> of the field \<open>batches\<close> of a document replaces what an
  earlier write of the same batch put there, and one rejected write rejects them all.
\<close>

fun commit :: "store \<Rightarrow> fbWrite list \<Rightarrow> store option" where
  "commit st [] = Some st"
| "commit st (w # ws) =
     (case apply_write st w of None \<Rightarrow> None | Some st' \<Rightarrow> commit st' ws)"

section \<open>Bill numbering (handleGenerateBill, src/unnamed/part_001, lines 284-296)\<close>

definition isDigit :: "char \<Rightarrow> bool" where
  "isDigit c = (48 \<le> (of_char c :: nat) \<and> (of_char c :: nat) \<le> 57)"

definition digitVal :: "char \<Rightarrow> nat" where
  "digitVal c = of_char c - 48"

definition digitChar :: "nat \<Rightarrow> char" where
  "digitChar d = char_of (48 + d)"

text \<open>\<open>s.replace(/\D/g, '')\<close>\<close>

definition stripNonDigits :: "string \<Rightarrow> string" where
  "stripNonDigits s = filter isDigit s"

text \<open>
  \<open>parseInt(s, 10)\<close> on the strings it receives here, which hold digits only:
  \<open>None\<close> is NaN (no leading digit), otherwise the value of the leading digits.
\<close>

definition parseInt :: "string \<Rightarrow> nat option" where
  "parseInt s =
     (let ds = takeWhile isDigit s
      in if ds = [] then None
         else Some (foldl (\<lambda>a c. 10 * a + digitVal c) 0 ds))"

text \<open>\<open>n.toString()\<close> of a non-negative integer.\<close>

function toString :: "nat \<Rightarrow> string" where
  "toString n =
     (if n < 10 then [digitChar n] else toString (n div 10) @ [digitChar (n mod 10)])"
  by pat_completeness auto
termination
  by (relation "measure (\<lambda>n. n)") auto

declare toString.simps [simp del]

definition padStart :: "nat \<Rightarrow> char \<Rightarrow> string \<Rightarrow> string" where
  "padStart n c s = replicate (n - length s) c @ s"

text \<open>The body of the \<open>forEach\<close> over all bills, and the loop itself.\<close>

definition maxStep :: "nat \<Rightarrow> bill \<Rightarrow> nat" where
  "maxStep maxBillNum b =
     (if billNumber b \<noteq> []
      then (case parseInt (stripNonDigits (billNumber b)) of
              None \<Rightarrow> maxBillNum
            | Some num \<Rightarrow> if num > maxBillNum then num else maxBillNum)
      else maxBillNum)"

definition maxBillNum :: "bill list \<Rightarrow> nat" where
  "maxBillNum bs = foldl maxStep 0 bs"

definition newBillNumber :: "bill list \<Rightarrow> string" where
  "newBillNumber bs = CHR ''B'' # padStart 4 (CHR ''0'') (toString (maxBillNum bs + 1))"

section \<open>Sale transactions (src/unnamed/part_001)\<close>

definition findProduct :: "product list \<Rightarrow> string \<Rightarrow> product option" where
  "findProduct ps i = find (\<lambda>p. pid p = i) ps"

text \<open>The write staged for one cart line by \<open>handleGenerateBill\<close> (lines 304-313).\<close>

definition generateWrite :: "product list \<Rightarrow> cartItem \<Rightarrow> fbWrite list" where
  "generateWrite ps item =
     (case findProduct ps (ci_productId item) of
        Some product \<Rightarrow>
          [UpdateBatches (pid product)
             (map (\<lambda>b. if bid b = ci_batchId item
                        then b\<lparr>stock := stock b - ci_quantity item\<rparr> else b)
                  (batches product))]
      | None \<Rightarrow> [])"

text \<open>
  \<open>handleGenerateBill\<close>, for a signed-in user. \<open>newId\<close> is the id of the new bill
  reference. The result is the store after the call and the returned bill (\<open>None\<close> for
  \<open>null\<close>).
\<close>

definition handleGenerateBill :: "store \<Rightarrow> string \<Rightarrow> bill \<Rightarrow> store \<times> bill option" where
  "handleGenerateBill st newId billData =
     (let newBill = billData\<lparr>billNumber := newBillNumber (bills st)\<rparr>;
          ws = SetBill newId newBill # concat (map (generateWrite (products st)) (items billData))
      in case commit st ws of
           Some st' \<Rightarrow> (st', Some (newBill\<lparr>bill_id := newId\<rparr>))
         | None \<Rightarrow> (st, None))"

text \<open>
  The outcomes the handlers report through \<open>alert\<close> and a \<open>null\<close> result.
\<close>

datatype error = ProductNotFound string | NegativeStock | WriteRejected

text \<open>
  The \<open>Map\<close> \<open>stockChanges\<close> of \<open>handleUpdateBill\<close>, in insertion order: batch id to
  \<open>(productId, change)\<close>. \<open>mapSet\<close> is \<open>Map.prototype.set\<close>: a known key keeps its
  place, a new key goes to the end.
\<close>

fun mapSet :: "(string \<times> 'v) list \<Rightarrow> string \<Rightarrow> 'v \<Rightarrow> (string \<times> 'v) list" where
  "mapSet [] k v = [(k, v)]"
| "mapSet ((k', v') # m) k v = (if k' = k then (k, v) # m else (k', v') # mapSet m k v)"

definition addChange ::
  "(string \<times> string \<times> int) list \<Rightarrow> int \<Rightarrow> cartItem \<Rightarrow> (string \<times> string \<times> int) list" where
  "addChange stockChanges sign item =
     (let existing = (case map_of stockChanges (ci_batchId item) of
                        Some e \<Rightarrow> e
                      | None \<Rightarrow> (ci_productId item, 0))
      in mapSet stockChanges (ci_batchId item)
           (fst existing, snd existing + ci_quantity item * sign))"

definition stockChangesOf :: "bill \<Rightarrow> bill \<Rightarrow> (string \<times> string \<times> int) list" where
  "stockChangesOf originalBill updatedBillData =
     foldl (\<lambda>m item. addChange m (- 1) item)
       (foldl (\<lambda>m item. addChange m 1 item) [] (items originalBill))
       (items updatedBillData)"

text \<open>
  The loop over \<open>stockChanges.entries()\<close> (lines 340-361): the staged product writes,
  or the error of the first entry that stops the handler.
\<close>

fun updateBillWrites ::
  "product list \<Rightarrow> (string \<times> string \<times> int) list \<Rightarrow> error + fbWrite list" where
  "updateBillWrites ps [] = Inr []"
| "updateBillWrites ps ((batchId, productId, change) # rest) =
     (if change = 0 then updateBillWrites ps rest
      else case findProduct ps productId of
             None \<Rightarrow> Inl (ProductNotFound productId)
           | Some product \<Rightarrow>
               (let newBatches = map (\<lambda>b. if bid b = batchId
                                           then b\<lparr>stock := stock b + change\<rparr> else b)
                                     (batches product)
                in if list_ex (\<lambda>b. stock b < 0) newBatches then Inl NegativeStock
                   else (case updateBillWrites ps rest of
                           Inl e \<Rightarrow> Inl e
                         | Inr ws \<Rightarrow> Inr (UpdateBatches productId newBatches # ws))))"

definition handleUpdateBill ::
  "store \<Rightarrow> string \<Rightarrow> bill \<Rightarrow> bill \<Rightarrow> store \<times> (error + bill)" where
  "handleUpdateBill st billId updatedBillData originalBill =
     (case updateBillWrites (products st) (stockChangesOf originalBill updatedBillData) of
        Inl e \<Rightarrow> (st, Inl e)
      | Inr ws \<Rightarrow>
          (case commit st (ws @ [UpdateBill billId updatedBillData]) of
             Some st' \<Rightarrow> (st', Inr (updatedBillData\<lparr>bill_id := billId\<rparr>))
           | None \<Rightarrow> (st, Inl WriteRejected)))"

text \<open>
  \<open>handleDeleteBill\<close> (lines 384-398), after the user has confirmed the dialog. Here
  and below a handler that returns nothing is modelled by the store it commits: \<open>None\<close>
  when nothing is committed, which leaves the store as it was.
\<close>

definition deleteBillWrite :: "product list \<Rightarrow> cartItem \<Rightarrow> fbWrite list" where
  "deleteBillWrite ps item =
     (case findProduct ps (ci_productId item) of
        Some product \<Rightarrow>
          [UpdateBatches (pid product)
             (map (\<lambda>b. if bid b = ci_batchId item
                        then b\<lparr>stock := stock b + ci_quantity item\<rparr> else b)
                  (batches product))]
      | None \<Rightarrow> [])"

definition handleDeleteBill :: "store \<Rightarrow> bill \<Rightarrow> store option" where
  "handleDeleteBill st b =
     commit st (concat (map (deleteBillWrite (products st)) (items b)) @ [DeleteBill (bill_id b)])"

section \<open>Purchase transactions (src/unnamed/part_001)\<close>

text \<open>
  Generated identifiers: the handlers draw batch-id suffixes (\<open>uniqueIdSuffix()\<close>) and
  new document ids (\<open>doc(collection(...))\<close>) from the outside; \<open>fresh k\<close> is the
  \<open>k\<close>-th one drawn during a call. A JavaScript string is truthy when it is present
  and not empty.
\<close>

definition truthy :: "string option \<Rightarrow> bool" where
  "truthy s = (case s of None \<Rightarrow> False | Some x \<Rightarrow> x \<noteq> [])"

definition newBatchData :: "string \<Rightarrow> purchaseLineItem \<Rightarrow> batch" where
  "newBatchData newBatchId item =
     \<lparr>bid = newBatchId, batchNumber = li_batchNumber item, expiryDate = li_expiryDate item,
      stock = li_quantity item, mrp = li_mrp item, purchasePrice = li_purchasePrice item\<rparr>"

definition newProductData :: "string \<Rightarrow> string \<Rightarrow> purchaseLineItem \<Rightarrow> product" where
  "newProductData newId newBatchId item =
     \<lparr>pid = newId, pname = li_productName item, company = li_company item,
      hsnCode = li_hsnCode item, gst = li_gst item, composition = li_composition item,
      batches = [newBatchData newBatchId item]\<rparr>"

text \<open>
  The loop of \<open>handleAddPurchase\<close> over the submitted lines (lines 463-518): the staged
  writes, \<open>itemsWithIds\<close>, and the number of identifiers drawn. Every line reads the
  snapshot \<open>ps\<close>. The company documents the handler also creates are in a collection
  that no stock computation reads, and are left out.
\<close>

fun addPurchaseLoop ::
  "product list \<Rightarrow> (nat \<Rightarrow> string) \<Rightarrow> nat \<Rightarrow> purchaseLineItem list
     \<Rightarrow> fbWrite list \<times> purchaseLineItem list \<times> nat" where
  "addPurchaseLoop ps fresh n [] = ([], [], n)"
| "addPurchaseLoop ps fresh n (item # rest) =
     (if li_isNewProduct item then
        (let newBatchId = ''batch_'' @ fresh n;
             newId = fresh (n + 1);
             finalItem = item\<lparr>li_productId := Some newId, li_batchId := Some newBatchId,
                              li_isNewProduct := False\<rparr>;
             (ws, its, n') = addPurchaseLoop ps fresh (n + 2) rest
         in (SetProduct newId (newProductData newId newBatchId item) # ws, finalItem # its, n'))
      else if truthy (li_productId item) then
        (case findProduct ps (the (li_productId item)) of
           None \<Rightarrow> addPurchaseLoop ps fresh n rest
         | Some product \<Rightarrow>
             (case find (\<lambda>b. batchNumber b = li_batchNumber item) (batches product) of
                Some existingBatch \<Rightarrow>
                  (let updatedBatches =
                         map (\<lambda>b. if bid b = bid existingBatch
                                   then b\<lparr>stock := stock b + li_quantity item,
                                          mrp := li_mrp item,
                                          purchasePrice := li_purchasePrice item,
                                          expiryDate := li_expiryDate item\<rparr>
                                   else b) (batches product);
                       finalItem = item\<lparr>li_batchId := Some (bid existingBatch)\<rparr>;
                       (ws, its, n') = addPurchaseLoop ps fresh n rest
                   in (UpdateBatches (the (li_productId item)) updatedBatches # ws,
                       finalItem # its, n'))
              | None \<Rightarrow>
                  (let newBatchId = ''batch_'' @ fresh n;
                       finalItem = item\<lparr>li_batchId := Some newBatchId\<rparr>;
                       (ws, its, n') = addPurchaseLoop ps fresh (n + 1) rest
                   in (UnionBatch (the (li_productId item)) (newBatchData newBatchId item) # ws,
                       finalItem # its, n'))))
      else
        (let (ws, its, n') = addPurchaseLoop ps fresh n rest
         in (ws, item # its, n')))"

definition purchaseTotal :: "purchaseLineItem list \<Rightarrow> real" where
  "purchaseTotal its =
     foldl (\<lambda>total item. total + li_purchasePrice item * of_int (li_quantity item)) 0 its"

text \<open>
  The purchase document \<open>handleAddPurchase\<close> stages (lines 520-522), and the handler:
  \<open>None\<close> when the commit is rejected, which leaves the store as it was.
\<close>

definition addPurchaseDoc :: "store \<Rightarrow> (nat \<Rightarrow> string) \<Rightarrow> purchase \<Rightarrow> purchase" where
  "addPurchaseDoc st fresh purchaseData =
     (let (ws, itemsWithIds, n) = addPurchaseLoop (products st) fresh 0 (pu_items purchaseData)
      in purchaseData\<lparr>pu_id := fresh n,
                      totalAmount := purchaseTotal (pu_items purchaseData),
                      pu_items := itemsWithIds\<rparr>)"

definition handleAddPurchase :: "store \<Rightarrow> (nat \<Rightarrow> string) \<Rightarrow> purchase \<Rightarrow> store option" where
  "handleAddPurchase st fresh purchaseData =
     (let (ws, itemsWithIds, n) = addPurchaseLoop (products st) fresh 0 (pu_items purchaseData)
      in commit st (ws @ [SetPurchase (fresh n) (addPurchaseDoc st fresh purchaseData)]))"

text \<open>
  \<open>handleUpdatePurchase\<close>. \<open>productsToUpdate\<close> is a \<open>Map\<close> from product id to the deep
  copy being modified, in insertion order; a change to a copy is written back under
  its key. \<open>findIndex\<close> is \<open>Array.prototype.findIndex\<close> with \<open>None\<close> for \<open>-1\<close>.
\<close>

fun findIndex :: "('a \<Rightarrow> bool) \<Rightarrow> 'a list \<Rightarrow> nat option" where
  "findIndex P [] = None"
| "findIndex P (x # xs) = (if P x then Some 0 else map_option Suc (findIndex P xs))"

definition getMutableProduct ::
  "product list \<Rightarrow> (string \<times> product) list \<Rightarrow> string
     \<Rightarrow> product option \<times> (string \<times> product) list" where
  "getMutableProduct ps productsToUpdate productId =
     (case map_of productsToUpdate productId of
        Some p \<Rightarrow> (Some p, productsToUpdate)
      | None \<Rightarrow>
          (case findProduct ps productId of
             Some p \<Rightarrow> (Some p, productsToUpdate @ [(productId, p)])
           | None \<Rightarrow> (None, productsToUpdate)))"

text \<open>The body of the revert stage (lines 553-562).\<close>

definition revertItem ::
  "product list \<Rightarrow> (string \<times> product) list \<Rightarrow> purchaseLineItem \<Rightarrow> (string \<times> product) list" where
  "revertItem ps m item =
     (if \<not> truthy (li_productId item) \<or> \<not> truthy (li_batchId item) then m
      else case getMutableProduct ps m (the (li_productId item)) of
             (None, m') \<Rightarrow> m'
           | (Some product, m') \<Rightarrow>
               (case findIndex (\<lambda>b. bid b = the (li_batchId item)) (batches product) of
                  None \<Rightarrow> m'
                | Some batchIndex \<Rightarrow>
                    mapSet m' (the (li_productId item))
                      (product\<lparr>batches := (batches product)
                         [batchIndex := (batches product ! batchIndex)
                            \<lparr>stock := stock (batches product ! batchIndex) - li_quantity item\<rparr>]\<rparr>)))"

text \<open>
  The apply stage (lines 566-605): the map after the stage, the staged \<open>set\<close> writes of
  new products, \<open>updatedItemsWithIds\<close> and the number of identifiers drawn.
\<close>

fun applyLoop ::
  "product list \<Rightarrow> (nat \<Rightarrow> string) \<Rightarrow> nat \<Rightarrow> (string \<times> product) list \<Rightarrow> purchaseLineItem list
     \<Rightarrow> (string \<times> product) list \<times> fbWrite list \<times> purchaseLineItem list \<times> nat" where
  "applyLoop ps fresh n m [] = (m, [], [], n)"
| "applyLoop ps fresh n m (item # rest) =
     (if li_isNewProduct item then
        (let newBatchId = ''batch_'' @ fresh n;
             newId = fresh (n + 1);
             finalItem = item\<lparr>li_productId := Some newId, li_batchId := Some newBatchId,
                              li_isNewProduct := False\<rparr>;
             (m', ws, its, n') = applyLoop ps fresh (n + 2) m rest
         in (m', SetProduct newId (newProductData newId newBatchId item) # ws,
             finalItem # its, n'))
      else if truthy (li_productId item) then
        (case getMutableProduct ps m (the (li_productId item)) of
           (None, m1) \<Rightarrow> applyLoop ps fresh n m1 rest
         | (Some product, m1) \<Rightarrow>
             (case findIndex (\<lambda>b. batchNumber b = li_batchNumber item) (batches product) of
                Some batchIndex \<Rightarrow>
                  (let b = batches product ! batchIndex;
                       product' = product\<lparr>batches := (batches product)
                                    [batchIndex := b\<lparr>stock := stock b + li_quantity item,
                                                     mrp := li_mrp item,
                                                     purchasePrice := li_purchasePrice item,
                                                     expiryDate := li_expiryDate item\<rparr>]\<rparr>;
                       finalItem = item\<lparr>li_batchId := Some (bid b)\<rparr>;
                       (m', ws, its, n') =
                         applyLoop ps fresh n (mapSet m1 (the (li_productId item)) product') rest
                   in (m', ws, finalItem # its, n'))
              | None \<Rightarrow>
                  (let newBatchId = ''batch_'' @ fresh n;
                       product' = product\<lparr>batches :=
                                    batches product @ [newBatchData newBatchId item]\<rparr>;
                       finalItem = item\<lparr>li_batchId := Some newBatchId\<rparr>;
                       (m', ws, its, n') =
                         applyLoop ps fresh (n + 1) (mapSet m1 (the (li_productId item)) product') rest
                   in (m', ws, finalItem # its, n'))))
      else
        (let (m', ws, its, n') = applyLoop ps fresh n m rest
         in (m', ws, item # its, n')))"

text \<open>The commit stage (lines 608-613): one write per touched product, floored at zero.\<close>

definition clampStock :: "batch \<Rightarrow> batch" where
  "clampStock b = (if stock b < 0 then b\<lparr>stock := 0\<rparr> else b)"

definition commitStage :: "(string \<times> product) list \<Rightarrow> fbWrite list" where
  "commitStage m = map (\<lambda>(productId, product). UpdateBatches productId (map clampStock (batches product))) m"

definition handleUpdatePurchase ::
  "store \<Rightarrow> (nat \<Rightarrow> string) \<Rightarrow> string \<Rightarrow> purchase \<Rightarrow> purchase \<Rightarrow> store option" where
  "handleUpdatePurchase st fresh purchaseId updatedPurchaseData originalPurchase =
     (let reverted = foldl (revertItem (products st)) [] (pu_items originalPurchase);
          (m, ws, updatedItemsWithIds, n) =
            applyLoop (products st) fresh 0 reverted (pu_items updatedPurchaseData)
      in commit st (ws @ commitStage m
                    @ [UpdatePurchase purchaseId
                         (updatedPurchaseData\<lparr>pu_items := updatedItemsWithIds\<rparr>)]))"

text \<open>\<open>handleDeletePurchase\<close> (lines 634-660), after the user has confirmed the dialog.\<close>

definition deletePurchaseWrite :: "product list \<Rightarrow> purchaseLineItem \<Rightarrow> fbWrite list" where
  "deletePurchaseWrite ps item =
     (if \<not> truthy (li_productId item) \<or> \<not> truthy (li_batchId item) then []
      else case findProduct ps (the (li_productId item)) of
             None \<Rightarrow> []
           | Some product \<Rightarrow>
               [UpdateBatches (pid product)
                  (map (\<lambda>b. if bid b = the (li_batchId item)
                             then (let newStock = stock b - li_quantity item
                                   in b\<lparr>stock := (if newStock < 0 then 0 else newStock)\<rparr>)
                             else b)
                       (batches product))])"

definition handleDeletePurchase :: "store \<Rightarrow> purchase \<Rightarrow> store option" where
  "handleDeletePurchase st p =
     (if pu_id p = [] then None
      else commit st (concat (map (deletePurchaseWrite (products st)) (pu_items p))
                      @ [DeletePurchase (pu_id p)]))"

section \<open>The cart of the billing screen (Billing, src/components/PaymentEntry.tsx)\<close>

text \<open>
  \<open>handleAddToCart\<close>, \<open>updateCartItem\<close> and \<open>removeFromCart\<close> over the cart state.
  \<open>expired\<close> is the outcome of the expiry-date comparison of the batch against today.
  A quantity typed into the cart is an \<open>int\<close>; a NaN from \<open>parseInt\<close> fails both
  comparisons of \<open>updateCartItem\<close>, as a quantity below 1 does.
\<close>

definition updateCartItem :: "product list \<Rightarrow> cartItem list \<Rightarrow> string \<Rightarrow> int \<Rightarrow> cartItem list" where
  "updateCartItem ps cart batchId quantity =
     map (\<lambda>item.
            if ci_batchId item = batchId then
              (case findProduct ps (ci_productId item) of
                 None \<Rightarrow> item
               | Some product \<Rightarrow>
                   (case find (\<lambda>b. bid b = batchId) (batches product) of
                      None \<Rightarrow> item
                    | Some batch \<Rightarrow>
                        if quantity > 0 \<and> quantity \<le> stock batch
                        then item\<lparr>ci_quantity := quantity,
                                  ci_total := ci_mrp item * of_int quantity\<rparr>
                        else item))
            else item) cart"

definition newCartItem :: "product \<Rightarrow> batch \<Rightarrow> cartItem" where
  "newCartItem product batch =
     \<lparr>ci_productId = pid product, ci_productName = pname product,
      ci_composition = composition product, ci_batchId = bid batch,
      ci_batchNumber = batchNumber batch, ci_expiryDate = expiryDate batch,
      ci_hsnCode = hsnCode product, ci_quantity = 1, ci_mrp = mrp batch,
      ci_gst = gst product, ci_total = mrp batch\<rparr>"

definition handleAddToCart ::
  "product list \<Rightarrow> bool \<Rightarrow> cartItem list \<Rightarrow> product \<Rightarrow> batch \<Rightarrow> cartItem list" where
  "handleAddToCart ps expired cart product batch =
     (if expired then cart
      else case find (\<lambda>item. ci_productId item = pid product \<and> ci_batchId item = bid batch) cart of
             Some existingItem \<Rightarrow>
               if ci_quantity existingItem < stock batch
               then updateCartItem ps cart (ci_batchId existingItem) (ci_quantity existingItem + 1)
               else cart
           | None \<Rightarrow> cart @ [newCartItem product batch])"

definition removeFromCart :: "cartItem list \<Rightarrow> string \<Rightarrow> cartItem list" where
  "removeFromCart cart batchId = filter (\<lambda>item. ci_batchId item \<noteq> batchId) cart"

text \<open>
  The user's actions on the cart, each with the product snapshot the component holds
  at that moment, and the cart after a sequence of them.
\<close>

datatype cartEvent =
    AddToCart "product list" bool product batch
  | UpdateCartItem "product list" string int
  | RemoveFromCart string

fun cartStep :: "cartItem list \<Rightarrow> cartEvent \<Rightarrow> cartItem list" where
  "cartStep cart (AddToCart ps expired product batch) = handleAddToCart ps expired cart product batch"
| "cartStep cart (UpdateCartItem ps batchId quantity) = updateCartItem ps cart batchId quantity"
| "cartStep cart (RemoveFromCart batchId) = removeFromCart cart batchId"

text \<open>
  The totals of the cart (the \<open>useMemo\<close> over \<open>cart\<close>, lines 394-404). The source's
  variables \<open>subTotal\<close>, \<open>totalGst\<close> and \<open>grandTotal\<close> are \<open>sub\<close>, \<open>tax\<close> and \<open>grand\<close>
  here, the long names being the fields of a bill.
\<close>

definition totalsStep :: "real \<times> real \<Rightarrow> cartItem \<Rightarrow> real \<times> real" where
  "totalsStep acc item =
     (let basePrice = ci_total item / (1 + ci_gst item / 100)
      in (fst acc + basePrice, snd acc + (ci_total item - basePrice)))"

definition cartTotals :: "cartItem list \<Rightarrow> real \<times> real \<times> real" where
  "cartTotals cart =
     (let (sub, tax) = foldl totalsStep (0, 0) cart;
          grand = sub + tax
      in (sub, tax, grand))"

text \<open>
  The bill data \<open>handleSaveBill\<close> hands to \<open>onUpdateBill\<close> (when a bill is being edited)
  or to \<open>onGenerateBill\<close>; \<open>None\<close> when the cart is empty. A new bill has no id and no
  number yet.
\<close>

definition saveBillData :: "bill option \<Rightarrow> string \<Rightarrow> string \<Rightarrow> cartItem list \<Rightarrow> bill option" where
  "saveBillData editingBill now customer cart =
     (if cart = [] then None
      else let (sub, tax, grand) = cartTotals cart;
               name = (if customer = [] then ''Walk-in'' else customer)
           in Some (case editingBill of
                      Some eb \<Rightarrow>
                        \<lparr>bill_id = bill_id eb, billNumber = billNumber eb, date = date eb,
                         customerName = name, items = cart, subTotal = sub,
                         totalGst = tax, grandTotal = grand\<rparr>
                    | None \<Rightarrow>
                        \<lparr>bill_id = [], billNumber = [], date = now,
                         customerName = name, items = cart, subTotal = sub,
                         totalGst = tax, grandTotal = grand\<rparr>))"

text \<open>A cart line whose total is its unit price times its quantity.\<close>

definition lineTotalOk :: "cartItem \<Rightarrow> bool" where
  "lineTotalOk item = (ci_total item = ci_mrp item * of_int (ci_quantity item))"

section \<open>Definitions for the statements and their proofs\<close>

text \<open>
  The numeric suffixes of the existing bills as the specification words them: the
  integer parsed from each bill number with the non-digits stripped, where there is
  one; and their maximum, which is 0 when there is none.
\<close>

definition billSuffixes :: "bill list \<Rightarrow> nat list" where
  "billSuffixes bs = List.map_filter (\<lambda>b. parseInt (stripNonDigits (billNumber b))) bs"

definition maxSuffix :: "bill list \<Rightarrow> nat" where
  "maxSuffix bs = Max (set (0 # billSuffixes bs))"

text \<open>The value of a string of decimal digits, read after the accumulator \<open>a\<close>.\<close>

definition digitsValue :: "nat \<Rightarrow> string \<Rightarrow> nat" where
  "digitsValue a s = foldl (\<lambda>a c. 10 * a + digitVal c) a s"

text \<open>
  The writes \<open>handleGenerateBill\<close> and \<open>handleDeleteBill\<close> stage have one shape: for each
  cart line whose product is in the snapshot, the whole \<open>batches\<close> array of the snapshot
  product with one transformation \<open>g\<close> applied. \<open>lastFor\<close> is the last cart line on a
  product, and \<open>cartEffect\<close> what a commit of these writes leaves of a product.
\<close>

definition cartWrite ::
  "(cartItem \<Rightarrow> batch list \<Rightarrow> batch list) \<Rightarrow> product list \<Rightarrow> cartItem \<Rightarrow> fbWrite list" where
  "cartWrite g ps item =
     (case findProduct ps (ci_productId item) of
        Some product \<Rightarrow> [UpdateBatches (pid product) (g item (batches product))]
      | None \<Rightarrow> [])"

definition decBatches :: "cartItem \<Rightarrow> batch list \<Rightarrow> batch list" where
  "decBatches item bs =
     map (\<lambda>b. if bid b = ci_batchId item then b\<lparr>stock := stock b - ci_quantity item\<rparr> else b) bs"

definition incBatches :: "cartItem \<Rightarrow> batch list \<Rightarrow> batch list" where
  "incBatches item bs =
     map (\<lambda>b. if bid b = ci_batchId item then b\<lparr>stock := stock b + ci_quantity item\<rparr> else b) bs"

definition lastFor :: "string \<Rightarrow> cartItem list \<Rightarrow> cartItem option" where
  "lastFor i its = find (\<lambda>item. ci_productId item = i) (rev its)"

definition cartEffect ::
  "(cartItem \<Rightarrow> batch list \<Rightarrow> batch list) \<Rightarrow> cartItem list \<Rightarrow> product \<Rightarrow> product" where
  "cartEffect g its p =
     (case lastFor (pid p) its of
        None \<Rightarrow> p
      | Some item \<Rightarrow> p\<lparr>batches := g item (batches p)\<rparr>)"

text \<open>A write that replaces the \<open>batches\<close> array of a product the list \<open>ps\<close> holds.\<close>

definition onlyUpdates :: "product list \<Rightarrow> fbWrite \<Rightarrow> bool" where
  "onlyUpdates ps w = (case w of UpdateBatches i bs \<Rightarrow> hasProduct ps i | _ \<Rightarrow> False)"

text \<open>
  The check of \<open>handleUpdateBill\<close> in the specification's words: an entry of the
  netted changes "would go negative" when its change is not zero, its product is in the
  snapshot, and the product's batches with the change applied hold a negative stock.
  \<open>touchedIds\<close> are the products of the entries with a change.
\<close>

definition changeBatches :: "string \<Rightarrow> int \<Rightarrow> batch list \<Rightarrow> batch list" where
  "changeBatches batchId change bs =
     map (\<lambda>b. if bid b = batchId then b\<lparr>stock := stock b + change\<rparr> else b) bs"

definition wouldGoNegative :: "product list \<Rightarrow> string \<times> string \<times> int \<Rightarrow> bool" where
  "wouldGoNegative ps e =
     (case e of (batchId, productId, change) \<Rightarrow>
        change \<noteq> 0 \<and>
        (case findProduct ps productId of
           None \<Rightarrow> False
         | Some product \<Rightarrow>
             list_ex (\<lambda>b. stock b < 0) (changeBatches batchId change (batches product))))"

definition touchedIds :: "(string \<times> string \<times> int) list \<Rightarrow> string list" where
  "touchedIds changes = map (\<lambda>e. fst (snd e)) (filter (\<lambda>e. snd (snd e) \<noteq> 0) changes)"

definition batchesNonNeg :: "batch list \<Rightarrow> bool" where
  "batchesNonNeg bs = list_all (\<lambda>b. 0 \<le> stock b) bs"

definition nonNegUpdate :: "fbWrite \<Rightarrow> bool" where
  "nonNegUpdate w = (case w of UpdateBatches i bs \<Rightarrow> batchesNonNeg bs | _ \<Rightarrow> False)"

definition target :: "fbWrite \<Rightarrow> string" where
  "target w = (case w of UpdateBatches i bs \<Rightarrow> i | _ \<Rightarrow> [])"

text \<open>
  Stock non-negativity of a store, the six operations of the engine with the store each
  commits (\<open>None\<close> when it commits nothing), and the conditions on the quantities of an
  operation: a generated bill sells no more of a batch than the snapshot holds, and the
  quantities of the lines are not negative where the operation adds them to stock.
\<close>

definition stockNonNeg :: "store \<Rightarrow> bool" where
  "stockNonNeg st = list_all (\<lambda>p. batchesNonNeg (batches p)) (products st)"

datatype operation =
    GenerateBill string bill
  | EditBill string bill bill
  | DeleteBillOp bill
  | AddPurchase "nat \<Rightarrow> string" purchase
  | EditPurchase "nat \<Rightarrow> string" string purchase purchase
  | DeletePurchaseOp purchase

fun committed :: "store \<Rightarrow> operation \<Rightarrow> store option" where
  "committed st (GenerateBill newId billData) =
     (case handleGenerateBill st newId billData of
        (st', Some b) \<Rightarrow> Some st' | (st', None) \<Rightarrow> None)"
| "committed st (EditBill billId updatedBillData originalBill) =
     (case handleUpdateBill st billId updatedBillData originalBill of
        (st', Inr b) \<Rightarrow> Some st' | (st', Inl e) \<Rightarrow> None)"
| "committed st (DeleteBillOp b) = handleDeleteBill st b"
| "committed st (AddPurchase fresh purchaseData) = handleAddPurchase st fresh purchaseData"
| "committed st (EditPurchase fresh purchaseId updatedPurchaseData originalPurchase) =
     handleUpdatePurchase st fresh purchaseId updatedPurchaseData originalPurchase"
| "committed st (DeletePurchaseOp p) = handleDeletePurchase st p"

definition withinStock :: "product list \<Rightarrow> cartItem \<Rightarrow> bool" where
  "withinStock ps item =
     (case findProduct ps (ci_productId item) of
        None \<Rightarrow> True
      | Some product \<Rightarrow>
          list_all (\<lambda>b. bid b = ci_batchId item \<longrightarrow> ci_quantity item \<le> stock b)
            (batches product))"

fun quantitiesOk :: "store \<Rightarrow> operation \<Rightarrow> bool" where
  "quantitiesOk st (GenerateBill newId billData) =
     list_all (withinStock (products st)) (items billData)"
| "quantitiesOk st (EditBill billId updatedBillData originalBill) = True"
| "quantitiesOk st (DeleteBillOp b) = list_all (\<lambda>item. 0 \<le> ci_quantity item) (items b)"
| "quantitiesOk st (AddPurchase fresh purchaseData) =
     list_all (\<lambda>item. 0 \<le> li_quantity item) (pu_items purchaseData)"
| "quantitiesOk st (EditPurchase fresh purchaseId updatedPurchaseData originalPurchase) =
     list_all (\<lambda>item. 0 \<le> li_quantity item) (pu_items updatedPurchaseData)"
| "quantitiesOk st (DeletePurchaseOp p) = True"

text \<open>A write that stores no negative stock.\<close>

definition writeNonNeg :: "fbWrite \<Rightarrow> bool" where
  "writeNonNeg w =
     (case w of
        SetProduct i p \<Rightarrow> batchesNonNeg (batches p)
      | UpdateBatches i bs \<Rightarrow> batchesNonNeg bs
      | UnionBatch i b \<Rightarrow> 0 \<le> stock b
      | _ \<Rightarrow> True)"

text \<open>
  A write to the products collection that a commit accepts when the documents of the
  snapshot \<open>ps\<close> are still in the store.
\<close>

definition productWriteOk :: "product list \<Rightarrow> fbWrite \<Rightarrow> bool" where
  "productWriteOk ps w =
     (case w of
        SetProduct i p \<Rightarrow> True
      | UpdateBatches i bs \<Rightarrow> hasProduct ps i
      | UnionBatch i b \<Rightarrow> hasProduct ps i
      | _ \<Rightarrow> False)"

text \<open>
  What \<open>handleAddPurchase\<close> does to a batch when a line matches the batch with id
  \<open>batchId\<close>: the quantity is added, price, cost and expiry are overwritten.
\<close>

definition restock :: "purchaseLineItem \<Rightarrow> string \<Rightarrow> batch \<Rightarrow> batch" where
  "restock item batchId b =
     (if bid b = batchId
      then b\<lparr>stock := stock b + li_quantity item, mrp := li_mrp item,
             purchasePrice := li_purchasePrice item, expiryDate := li_expiryDate item\<rparr>
      else b)"

text \<open>
  The net change of a batch in the specification's words: the sum of its quantities in
  the original items minus the sum of its quantities in the updated items.
\<close>

definition netDelta :: "cartItem list \<Rightarrow> cartItem list \<Rightarrow> string \<Rightarrow> int" where
  "netDelta originalItems updatedItems batchId =
     (\<Sum>item\<leftarrow>filter (\<lambda>item. ci_batchId item = batchId) originalItems. ci_quantity item)
     - (\<Sum>item\<leftarrow>filter (\<lambda>item. ci_batchId item = batchId) updatedItems. ci_quantity item)"

text \<open>
  The items of both lists with their signs, as \<open>addChange\<close> receives them, and the signed
  sum of the quantities on one batch.
\<close>

definition signedSum :: "(int \<times> cartItem) list \<Rightarrow> string \<Rightarrow> int" where
  "signedSum xs k = (\<Sum>x\<leftarrow>filter (\<lambda>x. ci_batchId (snd x) = k) xs. ci_quantity (snd x) * fst x)"








text \<open>
  The relation between the map \<open>productsToUpdate\<close> of the code and the working copy:
  \<open>view\<close> reads a product through the map, and \<open>mapInv\<close> says that the keys are distinct
  and every copy is the snapshot product of its key up to its batches.
\<close>

definition viewOf :: "(string \<times> product) list \<Rightarrow> product \<Rightarrow> product" where
  "viewOf m q = (case map_of m (pid q) of Some p \<Rightarrow> p | None \<Rightarrow> q)"


text \<open>What the writes of the commit stage leave of a stored product.\<close>

definition clampCopy :: "(string \<times> product) list \<Rightarrow> product \<Rightarrow> product" where
  "clampCopy m q =
     (case map_of m (pid q) of
        Some p \<Rightarrow> q\<lparr>batches := map clampStock (batches p)\<rparr>
      | None \<Rightarrow> q)"

definition view :: "product list \<Rightarrow> (string \<times> product) list \<Rightarrow> product list" where
  "view ps m = map (\<lambda>q. case map_of m (pid q) of Some p \<Rightarrow> p | None \<Rightarrow> q) ps"

definition copyOf :: "product list \<Rightarrow> string \<times> product \<Rightarrow> bool" where
  "copyOf ps e =
     (case findProduct ps (fst e) of
        None \<Rightarrow> False
      | Some q \<Rightarrow> snd e = q\<lparr>batches := batches (snd e)\<rparr>)"

definition mapInv :: "product list \<Rightarrow> (string \<times> product) list \<Rightarrow> bool" where
  "mapInv ps m = (distinct (map fst m) \<and> list_all (copyOf ps) m)"

text \<open>
  The product writes of a bill edit that passes its checks, one per entry with a change,
  as pairs of product id and new \<open>batches\<close> array; and what a commit of writes with
  distinct product ids leaves of a stored product.
\<close>

definition setBatches :: "(string \<times> batch list) list \<Rightarrow> product \<Rightarrow> product" where
  "setBatches us q = (case map_of us (pid q) of Some bs \<Rightarrow> q\<lparr>batches := bs\<rparr> | None \<Rightarrow> q)"

definition changeWrite :: "product list \<Rightarrow> string \<times> string \<times> int \<Rightarrow> string \<times> batch list" where
  "changeWrite ps e =
     (fst (snd e),
      changeBatches (fst e) (snd (snd e))
        (case findProduct ps (fst (snd e)) of Some p \<Rightarrow> batches p | None \<Rightarrow> []))"

section \<open>Example data\<close>

text \<open>An empty bill, from which the examples below are built.\<close>

definition bill0 :: bill where
  "bill0 = \<lparr>bill_id = '''', billNumber = '''', date = '''', customerName = ''Walk-in'', items = [],
            subTotal = 0, totalGst = 0, grandTotal = 0\<rparr>"

text \<open>
  One product with two batches of ten units each, a store that holds it, and cart
  lines that sell one unit of either batch.
\<close>

definition batchX :: batch where
  "batchX = \<lparr>bid = ''bx'', batchNumber = ''X1'', expiryDate = ''2027-01'', stock = 10,
             mrp = 20, purchasePrice = 15\<rparr>"

definition batchY :: batch where
  "batchY = \<lparr>bid = ''by'', batchNumber = ''Y1'', expiryDate = ''2027-06'', stock = 10,
             mrp = 30, purchasePrice = 25\<rparr>"

definition productP :: product where
  "productP = \<lparr>pid = ''p1'', pname = ''Paracetamol'', company = ''Acme'', hsnCode = ''3004'',
               gst = 12, composition = None, batches = [batchX, batchY]\<rparr>"

definition store0 :: store where
  "store0 = \<lparr>products = [productP], bills = [], purchases = []\<rparr>"

definition itemX :: cartItem where
  "itemX = \<lparr>ci_productId = ''p1'', ci_productName = ''Paracetamol'', ci_composition = None,
            ci_batchId = ''bx'', ci_batchNumber = ''X1'', ci_expiryDate = ''2027-01'',
            ci_hsnCode = ''3004'', ci_quantity = 1, ci_mrp = 20, ci_gst = 12, ci_total = 20\<rparr>"

definition itemY :: cartItem where
  "itemY = \<lparr>ci_productId = ''p1'', ci_productName = ''Paracetamol'', ci_composition = None,
            ci_batchId = ''by'', ci_batchNumber = ''Y1'', ci_expiryDate = ''2027-06'',
            ci_hsnCode = ''3004'', ci_quantity = 1, ci_mrp = 30, ci_gst = 12, ci_total = 30\<rparr>"

text \<open>A stored bill that sold five units of batch X.\<close>

definition billB1 :: bill where
  "billB1 = bill0\<lparr>bill_id := ''b1'', billNumber := ''B0001'', items := [itemX\<lparr>ci_quantity := 5\<rparr>]\<rparr>"

text \<open>
  An identifier supply, an empty purchase, and purchase lines on the product above: two
  that restock its batches and one that names a product the store does not hold.
\<close>

definition fresh0 :: "nat \<Rightarrow> string" where
  "fresh0 k = ''id'' @ toString k"

definition purchase0 :: purchase where
  "purchase0 = \<lparr>pu_id = [], invoiceNumber = ''INV-1'', invoiceDate = ''2026-01-05'',
                supplier = ''Medico'', pu_items = [], totalAmount = 0\<rparr>"

definition lineX :: purchaseLineItem where
  "lineX = \<lparr>li_isNewProduct = False, li_productName = ''Paracetamol'', li_company = ''Acme'',
            li_hsnCode = ''3004'', li_gst = 12, li_composition = None,
            li_productId = Some ''p1'', li_batchId = None, li_batchNumber = ''X1'',
            li_expiryDate = ''2027-03'', li_quantity = 2, li_mrp = 22, li_purchasePrice = 16\<rparr>"

definition lineY :: purchaseLineItem where
  "lineY = lineX\<lparr>li_batchNumber := ''Y1'', li_expiryDate := ''2027-09'', li_quantity := 3,
                 li_mrp := 33, li_purchasePrice := 26\<rparr>"

definition lineGhost :: purchaseLineItem where
  "lineGhost = lineX\<lparr>li_productId := Some ''gone'', li_quantity := 4, li_purchasePrice := 5\<rparr>"

text \<open>
  A cart session: batch X is added, its quantity is set to three, batch Y is added.
\<close>

definition cartEvents0 :: "cartEvent list" where
  "cartEvents0 = [AddToCart [productP] False productP batchX,
                  UpdateCartItem [productP] ''bx'' 3,
                  AddToCart [productP] False productP batchY]"

text \<open>
  A stored bill that sold five units of each batch, and the store after that sale.
\<close>

definition billB2 :: bill where
  "billB2 = bill0\<lparr>bill_id := ''b2'', billNumber := ''B0002'',
                   items := [itemX\<lparr>ci_quantity := 5\<rparr>, itemY\<lparr>ci_quantity := 5\<rparr>]\<rparr>"

definition storeSold :: store where
  "storeSold = \<lparr>products = [productP\<lparr>batches := [batchX\<lparr>stock := 5\<rparr>, batchY\<lparr>stock := 5\<rparr>]\<rparr>],
                bills = [billB2], purchases = []\<rparr>"

text \<open>
  A purchase of four units that is the only source of batch Y, the store that holds
  it, and the same purchase edited to six units.
\<close>

definition purchaseY :: purchase where
  "purchaseY = purchase0\<lparr>pu_id := ''pu1'', totalAmount := 104,
                         pu_items := [lineY\<lparr>li_batchId := Some ''by'', li_quantity := 4\<rparr>]\<rparr>"

definition purchaseY6 :: purchase where
  "purchaseY6 = purchase0\<lparr>pu_id := ''pu1'', totalAmount := 156,
                          pu_items := [lineY\<lparr>li_batchId := Some ''by'', li_quantity := 6\<rparr>]\<rparr>"

definition storePurchased :: store where
  "storePurchased = \<lparr>products = [productP\<lparr>batches := [batchX, batchY\<lparr>stock := 4\<rparr>]\<rparr>],
                     bills = [], purchases = [purchaseY]\<rparr>"

section \<open>Bill numbering\<close>

lemma parseInt_Nil: "parseInt [] = None"
  by (simp add: parseInt_def)

lemma maxStep_eq:
  "maxStep a b =
     (case parseInt (stripNonDigits (billNumber b)) of None \<Rightarrow> a | Some n \<Rightarrow> max a n)"
  by (auto simp: maxStep_def stripNonDigits_def parseInt_Nil max_def split: option.splits)

lemma Max_insert_max:
  "finite S \<Longrightarrow> Max (insert (max a n) S) = Max (insert a (insert n S))"
  by (cases "S = {}") (simp_all add: max.assoc)

lemma foldl_maxStep: "foldl maxStep a bs = Max (set (a # billSuffixes bs))"
proof (induction bs arbitrary: a)
  case Nil
  show ?case by (simp add: billSuffixes_def)
next
  case (Cons b bs)
  show ?case
  proof (cases "parseInt (stripNonDigits (billNumber b))")
    case None
    then show ?thesis using Cons.IH [of a]
      by (simp add: maxStep_eq billSuffixes_def)
  next
    case (Some n)
    have "maxStep a b = max a n" using Some by (simp add: maxStep_eq)
    then have "foldl maxStep a (b # bs) = Max (set (max a n # billSuffixes bs))"
      using Cons.IH [of "max a n"] by simp
    also have "\<dots> = Max (set (a # billSuffixes (b # bs)))"
      using Some Max_insert_max [of "set (billSuffixes bs)" a n]
      by (simp add: billSuffixes_def)
    finally show ?thesis .
  qed
qed

lemma maxBillNum_maxSuffix: "maxBillNum bs = maxSuffix bs"
  by (simp add: maxBillNum_def maxSuffix_def foldl_maxStep)

lemma isDigit_digitChar: "d < 10 \<Longrightarrow> isDigit (digitChar d)"
  by (simp add: isDigit_def digitChar_def)

lemma digitVal_digitChar: "d < 10 \<Longrightarrow> digitVal (digitChar d) = d"
  by (simp add: digitVal_def digitChar_def)

lemma toString_digits: "list_all isDigit (toString n)"
proof (induction n rule: toString.induct)
  case (1 n)
  show ?case
  proof (cases "n < 10")
    case True
    then show ?thesis by (subst toString.simps) (simp add: isDigit_digitChar)
  next
    case False
    then show ?thesis using 1 by (subst toString.simps) (simp add: isDigit_digitChar)
  qed
qed

lemma digitsValue_toString:
  "digitsValue a (toString n) =
     (if n < 10 then 10 * a + n else digitsValue a (toString (n div 10)) * 10 + n mod 10)"
  by (subst toString.simps) (simp add: digitsValue_def digitVal_digitChar)

lemma digitsValue_toString0: "digitsValue 0 (toString n) = n"
proof (induction n rule: toString.induct)
  case (1 n)
  show ?case
  proof (cases "n < 10")
    case True
    then show ?thesis by (simp add: digitsValue_toString)
  next
    case False
    then show ?thesis using 1 by (simp add: digitsValue_toString)
  qed
qed

lemma digitsValue_zeros: "digitsValue 0 (replicate k (CHR ''0'') @ s) = digitsValue 0 s"
  by (induction k) (simp_all add: digitsValue_def digitVal_def)

lemma toString_nonempty: "toString n \<noteq> []"
  by (subst toString.simps) simp

lemma parseInt_all_digits:
  assumes "list_all isDigit s" and "s \<noteq> []"
  shows "parseInt s = Some (digitsValue 0 s)"
proof -
  have tw: "takeWhile isDigit s = s" using assms(1) by (simp add: list_all_iff)
  show ?thesis unfolding parseInt_def Let_def tw digitsValue_def using assms(2) by simp
qed

lemma zeros_digits: "list_all isDigit (replicate k (CHR ''0''))"
  by (induction k) (simp_all add: isDigit_def)

lemma B_not_digit: "\<not> isDigit (CHR ''B'')"
  by (simp add: isDigit_def)

lemma parse_newBillNumber:
  "parseInt (stripNonDigits (newBillNumber bs)) = Some (maxBillNum bs + 1)"
proof -
  let ?s = "padStart 4 (CHR ''0'') (toString (maxBillNum bs + 1))"
  have d: "list_all isDigit ?s"
    unfolding padStart_def list_all_append
    using toString_digits zeros_digits by blast
  have ne: "?s \<noteq> []" by (simp add: padStart_def toString_nonempty)
  have "stripNonDigits (newBillNumber bs) = ?s"
    using d B_not_digit by (simp add: newBillNumber_def stripNonDigits_def list_all_iff)
  moreover have "parseInt ?s = Some (digitsValue 0 ?s)"
    by (rule parseInt_all_digits [OF d ne])
  moreover have "digitsValue 0 ?s = maxBillNum bs + 1"
    by (simp add: padStart_def digitsValue_zeros digitsValue_toString0)
  ultimately show ?thesis by simp
qed

section \<open>Commits of whole-array writes\<close>

lemma commit_append:
  "commit st (ws @ vs) = (case commit st ws of None \<Rightarrow> None | Some st' \<Rightarrow> commit st' vs)"
  by (induction ws arbitrary: st) (auto split: option.splits)

lemma generateWrite_cartWrite: "generateWrite ps item = cartWrite decBatches ps item"
  by (simp add: generateWrite_def cartWrite_def decBatches_def split: option.splits)

lemma deleteBillWrite_cartWrite: "deleteBillWrite ps item = cartWrite incBatches ps item"
  by (simp add: deleteBillWrite_def cartWrite_def incBatches_def split: option.splits)

lemma findProduct_Some: "findProduct ps i = Some p \<Longrightarrow> p \<in> set ps \<and> pid p = i"
  unfolding findProduct_def by (induction ps) (auto split: if_splits)

lemma findProduct_None: "findProduct ps i = None \<Longrightarrow> p \<in> set ps \<Longrightarrow> pid p \<noteq> i"
  unfolding findProduct_def by (induction ps) (auto split: if_splits)

lemma hasProduct_iff: "hasProduct ps i = (i \<in> pid ` set ps)"
  unfolding hasProduct_def by (induction ps) auto

lemma pid_cartEffect [simp]: "pid (cartEffect g its p) = pid p"
  by (simp add: cartEffect_def split: option.splits)

lemma lastFor_snoc:
  "lastFor i (its @ [x]) = (if ci_productId x = i then Some x else lastFor i its)"
  by (simp add: lastFor_def)

lemma cartEffect_snoc:
  "cartEffect g (its @ [x]) p =
     (if ci_productId x = pid p then p\<lparr>batches := g x (batches p)\<rparr> else cartEffect g its p)"
  by (simp add: cartEffect_def lastFor_snoc)

lemma distinct_pid_eq:
  "distinct (map pid ps) \<Longrightarrow> p \<in> set ps \<Longrightarrow> q \<in> set ps \<Longrightarrow> pid p = pid q \<Longrightarrow> p = q"
  by (meson distinct_map inj_onD)

lemma commit_cartWrites:
  assumes "distinct (map pid (products st))"
  shows "commit st (concat (map (cartWrite g (products st)) its))
           = Some (st\<lparr>products := map (cartEffect g its) (products st)\<rparr>)"
proof (induction its rule: rev_induct)
  case Nil
  have "cartEffect g [] = (\<lambda>p. p)"
    by (rule ext) (simp add: cartEffect_def lastFor_def)
  then have "map (cartEffect g []) (products st) = products st"
    by simp
  then show ?case by simp
next
  case (snoc x its)
  let ?ps = "products st"
  let ?st1 = "st\<lparr>products := map (cartEffect g its) ?ps\<rparr>"
  have step: "commit ?st1 (cartWrite g ?ps x) = Some (st\<lparr>products := map (cartEffect g (its @ [x])) ?ps\<rparr>)"
  proof (cases "findProduct ?ps (ci_productId x)")
    case None
    have "cartEffect g (its @ [x]) p = cartEffect g its p" if "p \<in> set ?ps" for p
      using findProduct_None [OF None that] by (auto simp: cartEffect_snoc)
    then have "map (cartEffect g (its @ [x])) ?ps = map (cartEffect g its) ?ps" by simp
    with None show ?thesis by (simp add: cartWrite_def)
  next
    case (Some q)
    then have q: "q \<in> set ?ps" "pid q = ci_productId x" using findProduct_Some by blast+
    have has: "hasProduct (map (cartEffect g its) ?ps) (pid q)"
      using q by (force simp: hasProduct_iff)
    have "\<And>p. p \<in> set ?ps \<Longrightarrow>
            (if pid (cartEffect g its p) = pid q
             then (cartEffect g its p)\<lparr>batches := g x (batches q)\<rparr> else cartEffect g its p)
            = cartEffect g (its @ [x]) p"
    proof -
      fix p assume p: "p \<in> set ?ps"
      show "(if pid (cartEffect g its p) = pid q
             then (cartEffect g its p)\<lparr>batches := g x (batches q)\<rparr> else cartEffect g its p)
            = cartEffect g (its @ [x]) p"
      proof (cases "pid p = pid q")
        case True
        then have pq: "p = q" using distinct_pid_eq [OF assms p q(1)] by simp
        have a: "cartEffect g (its @ [x]) q = q\<lparr>batches := g x (batches q)\<rparr>"
          using q by (simp add: cartEffect_snoc)
        have b: "(cartEffect g its q)\<lparr>batches := g x (batches q)\<rparr> = q\<lparr>batches := g x (batches q)\<rparr>"
          by (simp add: cartEffect_def split: option.splits)
        show ?thesis unfolding pq a using b by simp
      next
        case False
        then show ?thesis using q by (simp add: cartEffect_snoc)
      qed
    qed
    then have "map (\<lambda>p'. if pid p' = pid q then p'\<lparr>batches := g x (batches q)\<rparr> else p')
                 (map (cartEffect g its) ?ps) = map (cartEffect g (its @ [x])) ?ps"
      by (simp add: comp_def)
    with Some has show ?thesis by (simp add: cartWrite_def)
  qed
  show ?case using snoc.IH step by (simp add: commit_append)
qed

section \<open>Generating a bill\<close>

lemma hasProduct_map_pid: "map pid ps = map pid qs \<Longrightarrow> hasProduct ps i = hasProduct qs i"
  by (metis hasProduct_iff set_map)

lemma commit_updates_ok:
  "list_all (onlyUpdates (products st)) ws \<Longrightarrow>
   \<exists>st'. commit st ws = Some st' \<and> map pid (products st') = map pid (products st)
         \<and> bills st' = bills st \<and> purchases st' = purchases st"
proof (induction ws arbitrary: st)
  case Nil
  then show ?case by simp
next
  case (Cons w ws)
  from Cons.prems obtain i bs where w: "w = UpdateBatches i bs" and h: "hasProduct (products st) i"
    by (auto simp: onlyUpdates_def split: fbWrite.splits)
  let ?st1 = "st\<lparr>products := map (\<lambda>q. if pid q = i then q\<lparr>batches := bs\<rparr> else q) (products st)\<rparr>"
  have pids: "map pid (products ?st1) = map pid (products st)" by (simp add: comp_def if_distrib cong: if_cong)
  have "list_all (onlyUpdates (products ?st1)) ws"
    using Cons.prems hasProduct_map_pid [OF pids]
    by (auto simp: list_all_iff onlyUpdates_def split: fbWrite.splits)
  from Cons.IH [OF this] pids w h show ?case by auto
qed

lemma cartWrite_onlyUpdates: "list_all (onlyUpdates ps) (concat (map (cartWrite g ps) its))"
proof -
  have "list_all (onlyUpdates ps) (cartWrite g ps x)" for x
  proof (cases "findProduct ps (ci_productId x)")
    case None
    then show ?thesis by (simp add: cartWrite_def)
  next
    case (Some q)
    then have "pid q \<in> pid ` set ps" using findProduct_Some by blast
    with Some show ?thesis by (simp add: cartWrite_def onlyUpdates_def hasProduct_iff)
  qed
  then show ?thesis by (induction its) simp_all
qed

lemma handleGenerateBill_commits:
  "\<exists>st'. handleGenerateBill st newId billData =
          (st', Some (billData\<lparr>billNumber := newBillNumber (bills st), bill_id := newId\<rparr>))"
proof -
  let ?nb = "billData\<lparr>billNumber := newBillNumber (bills st)\<rparr>"
  obtain st0 where st0: "apply_write st (SetBill newId ?nb) = Some st0" "products st0 = products st"
    by simp
  have "list_all (onlyUpdates (products st0)) (concat (map (generateWrite (products st)) (items billData)))"
    using cartWrite_onlyUpdates [of "products st" decBatches "items billData"] st0(2)
    by (simp add: generateWrite_cartWrite [abs_def])
  from commit_updates_ok [OF this] obtain st' where
    "commit st0 (concat (map (generateWrite (products st)) (items billData))) = Some st'" by blast
  then show ?thesis using st0(1) by (simp add: handleGenerateBill_def Let_def)
qed

text \<open>
  Claim C8. The number of a newly generated bill is \<open>B\<close> followed by the decimal
  rendering, zero-padded to four digits, of one more than the maximum over the existing
  bills of the integer parsed from the bill number with its non-digits stripped (0 when
  no bill has one). Parsing the new number the same way gives that maximum plus one, so
  the suffix is one above the current maximum whatever gaps deleted bills left. The
  handler commits and returns the bill with this number.
\<close>

theorem bill_number_is_max_suffix_plus_one:
  "newBillNumber (bills st)
     = CHR ''B'' # padStart 4 (CHR ''0'') (toString (maxSuffix (bills st) + 1))
   \<and> parseInt (stripNonDigits (newBillNumber (bills st))) = Some (maxSuffix (bills st) + 1)
   \<and> (\<exists>st'. handleGenerateBill st newId billData =
          (st', Some (billData\<lparr>billNumber := newBillNumber (bills st), bill_id := newId\<rparr>)))"
  using parse_newBillNumber [of "bills st"] handleGenerateBill_commits [of st newId billData]
  by (simp add: newBillNumber_def maxBillNum_maxSuffix)

theorem bill_number_is_max_suffix_plus_one_witness:
  "newBillNumber (bills \<lparr>products = [], bills = [bill0\<lparr>bill_id := ''x1'', billNumber := ''B0003''\<rparr>,
                  bill0\<lparr>bill_id := ''x2'', billNumber := ''B0007''\<rparr>], purchases = []\<rparr>) = ''B0008''
   \<and> parseInt (stripNonDigits (newBillNumber (bills \<lparr>products = [], bills = [bill0\<lparr>bill_id := ''x1'', billNumber := ''B0003''\<rparr>,
                  bill0\<lparr>bill_id := ''x2'', billNumber := ''B0007''\<rparr>], purchases = []\<rparr>))) = Some 8"
proof -
  let ?st = "\<lparr>products = [], bills = [bill0\<lparr>bill_id := ''x1'', billNumber := ''B0003''\<rparr>,
                  bill0\<lparr>bill_id := ''x2'', billNumber := ''B0007''\<rparr>], purchases = []\<rparr>"
  have a: "maxSuffix (bills ?st) + 1 = 8" by code_simp
  have b: "CHR ''B'' # padStart 4 (CHR ''0'') (toString 8) = ''B0008''" by code_simp
  have "newBillNumber (bills ?st)
          = CHR ''B'' # padStart 4 (CHR ''0'') (toString (maxSuffix (bills ?st) + 1))"
    and "parseInt (stripNonDigits (newBillNumber (bills ?st))) = Some (maxSuffix (bills ?st) + 1)"
    using bill_number_is_max_suffix_plus_one [of ?st "''n1''" bill0] by blast+
  then show ?thesis unfolding a b by blast
qed

section \<open>Generating a bill and deleting it again\<close>

lemma incBatches_decBatches: "incBatches item (decBatches item bs) = bs"
  by (induction bs) (simp_all add: incBatches_def decBatches_def)

lemma cartEffect_inc_dec: "cartEffect incBatches its (cartEffect decBatches its p) = p"
  by (cases "lastFor (pid p) its") (simp_all add: cartEffect_def incBatches_decBatches)

lemma map_pid_cartEffect: "map pid (map (cartEffect g its) ps) = map pid ps"
  by (induction ps) simp_all

text \<open>
  Claim C5. Generating a bill from any cart over any snapshot (product documents have
  distinct ids) commits, and deleting the returned bill right after commits as well and
  leaves the product collection, hence the stock of every batch the bill's lines touch,
  exactly as it was before the generate.
\<close>

theorem generate_then_delete_restores_stock:
  assumes "distinct (map pid (products st))"
  shows "\<exists>st1 b st2. handleGenerateBill st newId billData = (st1, Some b)
           \<and> handleDeleteBill st1 b = Some st2
           \<and> products st2 = products st"
proof -
  let ?ps = "products st"
  let ?its = "items billData"
  let ?nb = "billData\<lparr>billNumber := newBillNumber (bills st)\<rparr>"
  let ?b = "?nb\<lparr>bill_id := newId\<rparr>"
  obtain st0 where st0: "apply_write st (SetBill newId ?nb) = Some st0" "products st0 = ?ps"
    by simp
  let ?st1 = "st0\<lparr>products := map (cartEffect decBatches ?its) ?ps\<rparr>"
  have "distinct (map pid (products st0))" using assms st0(2) by simp
  from commit_cartWrites [OF this, of decBatches ?its]
  have c1: "commit st0 (concat (map (generateWrite ?ps) ?its)) = Some ?st1"
    by (simp add: st0(2) generateWrite_cartWrite [abs_def])
  have gen: "handleGenerateBill st newId billData = (?st1, Some ?b)"
    using st0(1) c1 by (simp add: handleGenerateBill_def Let_def)
  have d1: "distinct (map pid (products ?st1))"
    using assms by (simp add: map_pid_cartEffect del: map_map)
  let ?st2 = "?st1\<lparr>products := map (cartEffect incBatches ?its) (products ?st1)\<rparr>"
  from commit_cartWrites [OF d1, of incBatches ?its]
  have c2: "commit ?st1 (concat (map (deleteBillWrite (products ?st1)) ?its)) = Some ?st2"
    by (simp add: deleteBillWrite_cartWrite [abs_def])
  obtain st3 where st3: "apply_write ?st2 (DeleteBill newId) = Some st3" "products st3 = products ?st2"
    by simp
  have del: "handleDeleteBill ?st1 ?b = Some st3"
    using c2 st3(1) unfolding handleDeleteBill_def commit_append by simp
  have "products ?st2 = ?ps"
    by (simp add: cartEffect_inc_dec comp_def)
  with gen del st3(2) show ?thesis by metis
qed

theorem generate_then_delete_restores_stock_witness:
  "distinct (map pid (products store0))
   \<and> (\<exists>st1 b st2. handleGenerateBill store0 ''n1'' (bill0\<lparr>items := [itemX, itemY]\<rparr>) = (st1, Some b)
         \<and> handleDeleteBill st1 b = Some st2
         \<and> products st2 = products store0)"
proof -
  have d: "distinct (map pid (products store0))"
    by (simp add: store0_def)
  from generate_then_delete_restores_stock [OF d] d show ?thesis by blast
qed


section \<open>Editing a bill: the negative-stock check\<close>

lemma wouldGoNegative_triple:
  "wouldGoNegative ps (batchId, productId, change) =
     (change \<noteq> 0 \<and>
      (case findProduct ps productId of
         None \<Rightarrow> False
       | Some product \<Rightarrow>
           list_ex (\<lambda>b. stock b < 0) (changeBatches batchId change (batches product))))"
  by (simp add: wouldGoNegative_def)

lemma not_list_ex_neg: "(\<not> list_ex (\<lambda>b. stock b < 0) bs) = batchesNonNeg bs"
  by (induction bs) (auto simp: batchesNonNeg_def)

lemma updateBillWrites_negative:
  "list_ex (wouldGoNegative ps) cs \<Longrightarrow> \<exists>e. e \<noteq> WriteRejected \<and> updateBillWrites ps cs = Inl e"
proof (induction ps cs rule: updateBillWrites.induct)
  case (1 ps)
  then show ?case by simp
next
  case (2 ps batchId productId change rest)
  show ?case
  proof (cases "change = 0")
    case True
    with 2 show ?thesis by (simp add: wouldGoNegative_triple)
  next
    case False
    show ?thesis
    proof (cases "findProduct ps productId")
      case None
      with False show ?thesis by simp
    next
      case (Some product)
      show ?thesis
      proof (cases "list_ex (\<lambda>b. stock b < 0) (changeBatches batchId change (batches product))")
        case True
        with False Some show ?thesis by (simp add: changeBatches_def)
      next
        case neg: False
        with 2(3) False Some have "list_ex (wouldGoNegative ps) rest"
          by (simp add: wouldGoNegative_triple)
        with 2(2) [OF False Some refl] neg obtain e where
          "e \<noteq> WriteRejected" "updateBillWrites ps rest = Inl e"
          by (auto simp: changeBatches_def)
        with False Some neg show ?thesis by (simp add: changeBatches_def)
      qed
    qed
  qed
qed

lemma updateBillWrites_ok:
  "updateBillWrites ps cs = Inr ws \<Longrightarrow>
     \<not> list_ex (wouldGoNegative ps) cs \<and> list_all nonNegUpdate ws
     \<and> list_all (onlyUpdates ps) ws \<and> map target ws = touchedIds cs"
proof (induction ps cs arbitrary: ws rule: updateBillWrites.induct)
  case (1 ps)
  then show ?case by (simp add: touchedIds_def)
next
  case (2 ps batchId productId change rest)
  show ?case
  proof (cases "change = 0")
    case True
    with 2 show ?thesis by (simp add: wouldGoNegative_triple touchedIds_def)
  next
    case False
    with 2(3) obtain product where Some: "findProduct ps productId = Some product"
      by (cases "findProduct ps productId") simp_all
    let ?nb = "changeBatches batchId change (batches product)"
    from 2(3) False Some have neg: "\<not> list_ex (\<lambda>b. stock b < 0) ?nb"
      by (auto simp: changeBatches_def split: if_splits)
    with 2(3) False Some obtain ws' where
      ws': "updateBillWrites ps rest = Inr ws'" "ws = UpdateBatches productId ?nb # ws'"
      by (auto simp: changeBatches_def split: sum.splits)
    from neg have neg': "\<not> list_ex (\<lambda>b. stock b < 0)
             (map (\<lambda>b. if bid b = batchId then b\<lparr>stock := stock b + change\<rparr> else b) (batches product))"
      by (simp add: changeBatches_def)
    note ih = 2(2) [OF False Some refl neg' ws'(1)]
    have "hasProduct ps productId"
      using findProduct_Some [OF Some] by (auto simp: hasProduct_iff)
    with ih ws'(2) neg False Some show ?thesis
      by (simp add: wouldGoNegative_triple nonNegUpdate_def onlyUpdates_def target_def
          touchedIds_def not_list_ex_neg)
  qed
qed

lemma commit_nonNegUpdates:
  "list_all nonNegUpdate ws \<Longrightarrow> commit st ws = Some st' \<Longrightarrow>
   \<forall>p \<in> set (products st). pid p \<in> T \<longrightarrow> batchesNonNeg (batches p) \<Longrightarrow>
   (\<forall>p \<in> set (products st'). pid p \<in> T \<union> set (map target ws) \<longrightarrow> batchesNonNeg (batches p))
   \<and> bills st' = bills st \<and> purchases st' = purchases st"
proof (induction ws arbitrary: st T)
  case Nil
  then show ?case by simp
next
  case (Cons w ws)
  from Cons.prems(1) obtain i bs where w: "w = UpdateBatches i bs" and bs: "batchesNonNeg bs"
    by (auto simp: nonNegUpdate_def split: fbWrite.splits)
  from Cons.prems(2) w obtain st1 where
    st1: "apply_write st w = Some st1" "commit st1 ws = Some st'"
    by (auto split: option.splits)
  from st1(1) w have p1: "products st1 = map (\<lambda>q. if pid q = i then q\<lparr>batches := bs\<rparr> else q) (products st)"
     and o1: "bills st1 = bills st" "purchases st1 = purchases st"
    by (auto split: if_splits)
  have "\<forall>p \<in> set (products st1). pid p \<in> insert i T \<longrightarrow> batchesNonNeg (batches p)"
    using Cons.prems(3) bs unfolding p1 by auto
  from Cons.IH [OF _ st1(2) this] Cons.prems(1) w o1 show ?case
    by (simp add: target_def)
qed

text \<open>
  Claim C3. If applying some net change of a bill edit to the batches of its product
  leaves a batch of that product below zero, \<open>handleUpdateBill\<close> fails before the commit
  (the error is not a rejected write) and returns the store it was given. Every failure
  leaves the store unchanged. When the edit is committed, no net change would have left
  a negative batch, and in the committed store no product touched by a change holds a
  batch with negative stock.
\<close>

theorem updateBill_negative_stock_aborts:
  "(list_ex (wouldGoNegative (products st)) (stockChangesOf originalBill updatedBillData) \<longrightarrow>
      (\<exists>e. e \<noteq> WriteRejected
          \<and> handleUpdateBill st billId updatedBillData originalBill = (st, Inl e)))
   \<and> (\<forall>st' e. handleUpdateBill st billId updatedBillData originalBill = (st', Inl e) \<longrightarrow> st' = st)
   \<and> (\<forall>st' b. handleUpdateBill st billId updatedBillData originalBill = (st', Inr b) \<longrightarrow>
         \<not> list_ex (wouldGoNegative (products st)) (stockChangesOf originalBill updatedBillData)
         \<and> list_all (\<lambda>p. pid p \<in> set (touchedIds (stockChangesOf originalBill updatedBillData))
                          \<longrightarrow> batchesNonNeg (batches p)) (products st'))"
proof (intro conjI allI impI)
  let ?cs = "stockChangesOf originalBill updatedBillData"
  {
    assume "list_ex (wouldGoNegative (products st)) ?cs"
    from updateBillWrites_negative [OF this]
    show "\<exists>e. e \<noteq> WriteRejected \<and> handleUpdateBill st billId updatedBillData originalBill = (st, Inl e)"
      by (auto simp: handleUpdateBill_def)
  next
    fix st' e
    assume "handleUpdateBill st billId updatedBillData originalBill = (st', Inl e)"
    then show "st' = st"
      by (auto simp: handleUpdateBill_def split: sum.splits option.splits)
  next
    fix st' b
    assume ok: "handleUpdateBill st billId updatedBillData originalBill = (st', Inr b)"
    then obtain ws where ws: "updateBillWrites (products st) ?cs = Inr ws"
      and c: "commit st (ws @ [UpdateBill billId updatedBillData]) = Some st'"
      by (auto simp: handleUpdateBill_def split: sum.splits option.splits)
    note w = updateBillWrites_ok [OF ws]
    from w show "\<not> list_ex (wouldGoNegative (products st)) ?cs" by simp
    from c obtain st1 where st1: "commit st ws = Some st1"
      and l: "apply_write st1 (UpdateBill billId updatedBillData) = Some st'"
      by (auto simp: commit_append split: option.splits)
    from l have ps: "products st' = products st1" by (auto split: if_splits)
    from commit_nonNegUpdates [OF _ st1, of "{}"] w
    have "\<forall>p \<in> set (products st1). pid p \<in> set (touchedIds ?cs) \<longrightarrow> batchesNonNeg (batches p)"
      by simp
    then show "list_all (\<lambda>p. pid p \<in> set (touchedIds ?cs) \<longrightarrow> batchesNonNeg (batches p)) (products st')"
      unfolding ps by (simp add: list_all_iff)
  }
qed

theorem updateBill_negative_stock_aborts_witness:
  "list_ex (wouldGoNegative (products (store0\<lparr>bills := [billB1]\<rparr>)))
     (stockChangesOf billB1 (billB1\<lparr>items := [itemX\<lparr>ci_quantity := 20\<rparr>]\<rparr>))
   \<and> (\<exists>e. e \<noteq> WriteRejected
         \<and> handleUpdateBill (store0\<lparr>bills := [billB1]\<rparr>) ''b1''
               (billB1\<lparr>items := [itemX\<lparr>ci_quantity := 20\<rparr>]\<rparr>) billB1
             = (store0\<lparr>bills := [billB1]\<rparr>, Inl e))"
proof -
  have h: "list_ex (wouldGoNegative (products (store0\<lparr>bills := [billB1]\<rparr>)))
             (stockChangesOf billB1 (billB1\<lparr>items := [itemX\<lparr>ci_quantity := 20\<rparr>]\<rparr>))"
    by code_simp
  from updateBill_negative_stock_aborts
         [of "store0\<lparr>bills := [billB1]\<rparr>" billB1
             "billB1\<lparr>items := [itemX\<lparr>ci_quantity := 20\<rparr>]\<rparr>" "''b1''"] h
  show ?thesis by blast
qed

section \<open>Stock non-negativity\<close>

lemma batchesNonNeg_arrayUnion:
  "batchesNonNeg bs \<Longrightarrow> 0 \<le> stock b \<Longrightarrow> batchesNonNeg (arrayUnion bs b)"
  by (simp add: arrayUnion_def batchesNonNeg_def)

lemma apply_write_stockNonNeg:
  "stockNonNeg st \<Longrightarrow> writeNonNeg w \<Longrightarrow> apply_write st w = Some st' \<Longrightarrow> stockNonNeg st'"
  by (cases w)
     (auto simp: stockNonNeg_def writeNonNeg_def list_all_iff batchesNonNeg_arrayUnion
           split: if_splits)

lemma commit_stockNonNeg:
  "stockNonNeg st \<Longrightarrow> list_all writeNonNeg ws \<Longrightarrow> commit st ws = Some st' \<Longrightarrow> stockNonNeg st'"
proof (induction ws arbitrary: st)
  case Nil
  then show ?case by simp
next
  case (Cons w ws)
  from Cons.prems(3) obtain st1 where
    st1: "apply_write st w = Some st1" "commit st1 ws = Some st'"
    by (auto split: option.splits)
  from apply_write_stockNonNeg [OF Cons.prems(1) _ st1(1)] Cons.prems(2)
  have "stockNonNeg st1" by simp
  from Cons.IH [OF this _ st1(2)] Cons.prems(2) show ?case by simp
qed

lemma found_batchesNonNeg:
  "stockNonNeg st \<Longrightarrow> findProduct (products st) i = Some p \<Longrightarrow> batchesNonNeg (batches p)"
  using findProduct_Some [of "products st" i p] by (auto simp: stockNonNeg_def list_all_iff)

lemma generateWrite_nonNeg:
  assumes "stockNonNeg st" and "withinStock (products st) item"
  shows "list_all writeNonNeg (generateWrite (products st) item)"
proof (cases "findProduct (products st) (ci_productId item)")
  case None
  then show ?thesis by (simp add: generateWrite_def)
next
  case (Some p)
  from found_batchesNonNeg [OF assms(1) Some] assms(2) Some
  show ?thesis
    by (auto simp: generateWrite_def writeNonNeg_def withinStock_def batchesNonNeg_def list_all_iff)
qed

lemma deleteBillWrite_nonNeg:
  assumes "stockNonNeg st" and "0 \<le> ci_quantity item"
  shows "list_all writeNonNeg (deleteBillWrite (products st) item)"
proof (cases "findProduct (products st) (ci_productId item)")
  case None
  then show ?thesis by (simp add: deleteBillWrite_def)
next
  case (Some p)
  from found_batchesNonNeg [OF assms(1) Some] assms(2) Some
  show ?thesis
    by (auto simp: deleteBillWrite_def writeNonNeg_def batchesNonNeg_def list_all_iff)
qed

lemma deletePurchaseWrite_nonNeg:
  assumes "stockNonNeg st"
  shows "list_all writeNonNeg (deletePurchaseWrite (products st) item)"
proof (cases "findProduct (products st) (the (li_productId item))")
  case None
  then show ?thesis by (simp add: deletePurchaseWrite_def)
next
  case (Some p)
  from found_batchesNonNeg [OF assms(1) Some] Some
  show ?thesis
    by (auto simp: deletePurchaseWrite_def writeNonNeg_def batchesNonNeg_def list_all_iff Let_def)
qed

lemma list_all_concat_map:
  "(\<And>x. x \<in> set xs \<Longrightarrow> list_all P (f x)) \<Longrightarrow> list_all P (concat (map f xs))"
  by (induction xs) simp_all

lemma nonNegUpdate_writeNonNeg: "nonNegUpdate w \<Longrightarrow> writeNonNeg w"
  by (cases w) (simp_all add: nonNegUpdate_def writeNonNeg_def)

lemma commitStage_nonNeg: "list_all writeNonNeg (commitStage m)"
  by (induction m) (auto simp: commitStage_def writeNonNeg_def batchesNonNeg_def clampStock_def list_all_iff)

lemma newBatchData_stock [simp]: "stock (newBatchData i item) = li_quantity item"
  by (simp add: newBatchData_def)

lemma newProductData_batches [simp]:
  "batches (newProductData i j item) = [newBatchData j item]"
  by (simp add: newProductData_def)

lemma addPurchaseLoop_nonNeg:
  assumes "stockNonNeg st"
  shows "list_all (\<lambda>item. 0 \<le> li_quantity item) its \<Longrightarrow>
         list_all writeNonNeg (fst (addPurchaseLoop (products st) fresh n its))"
proof (induction its arbitrary: n)
  case Nil
  then show ?case by simp
next
  case (Cons item rest)
  then have q: "0 \<le> li_quantity item" and r: "list_all (\<lambda>item. 0 \<le> li_quantity item) rest"
    by simp_all
  note ih = Cons.IH [OF r]
  show ?case
  proof (cases "li_isNewProduct item")
    case True
    with q ih [of "n + 2"] show ?thesis
      by (simp add: Let_def split_beta writeNonNeg_def batchesNonNeg_def)
  next
    case new: False
    show ?thesis
    proof (cases "truthy (li_productId item)")
      case False
      with new ih [of n] show ?thesis by (simp add: split_beta)
    next
      case True
      show ?thesis
      proof (cases "findProduct (products st) (the (li_productId item))")
        case None
        with new True ih [of n] show ?thesis by simp
      next
        case (Some product)
        note nn = found_batchesNonNeg [OF assms Some]
        show ?thesis
        proof (cases "find (\<lambda>b. batchNumber b = li_batchNumber item) (batches product)")
          case None
          with new True Some q ih [of "n + 1"] show ?thesis
            by (simp add: Let_def split_beta writeNonNeg_def)
        next
          case (Some existingBatch)
          with new True \<open>findProduct (products st) (the (li_productId item)) = Some product\<close>
            q nn ih [of n]
          show ?thesis
            by (auto simp: Let_def split_beta writeNonNeg_def batchesNonNeg_def list_all_iff)
        qed
      qed
    qed
  qed
qed

lemma applyLoop_nonNeg:
  "list_all (\<lambda>item. 0 \<le> li_quantity item) its \<Longrightarrow>
   list_all writeNonNeg (fst (snd (applyLoop ps fresh n m its)))"
proof (induction its arbitrary: n m)
  case Nil
  then show ?case by simp
next
  case (Cons item rest)
  then have q: "0 \<le> li_quantity item" and r: "list_all (\<lambda>item. 0 \<le> li_quantity item) rest"
    by simp_all
  note ih = Cons.IH [OF r]
  show ?case
  proof (cases "li_isNewProduct item")
    case True
    with q ih [of "n + 2" m] show ?thesis
      by (simp add: Let_def split_beta writeNonNeg_def batchesNonNeg_def)
  next
    case new: False
    show ?thesis
    proof (cases "truthy (li_productId item)")
      case False
      with new ih [of n m] show ?thesis by (simp add: split_beta)
    next
      case True
      obtain r m1 where g: "getMutableProduct ps m (the (li_productId item)) = (r, m1)"
        by (cases "getMutableProduct ps m (the (li_productId item))")
      show ?thesis
      proof (cases r)
        case None
        with new True g ih [of n m1] show ?thesis by simp
      next
        case (Some product)
        show ?thesis
        proof (cases "findIndex (\<lambda>b. batchNumber b = li_batchNumber item) (batches product)")
          case None
          with new True g Some ih [of "n + 1"] show ?thesis
            by (simp add: Let_def split_beta)
        next
          case (Some batchIndex)
          with new True g \<open>r = Some product\<close> ih [of n]
          show ?thesis
            by (simp add: Let_def split_beta)
        qed
      qed
    qed
  qed
qed

text \<open>
  Claim C1, as amended. If every batch of every product has stock \<open>\<ge> 0\<close>, then after a
  committed edit or delete of a bill and after a committed add, edit or delete of a
  purchase every batch has stock \<open>\<ge> 0\<close>, the quantities of the lines being non-negative;
  after a committed generate this holds when no cart line sells more than the stock its
  batch has in the snapshot, which \<open>handleGenerateBill\<close> does not check.
\<close>

theorem committed_operations_keep_stock_non_negative:
  assumes "stockNonNeg st" and "quantitiesOk st op" and "committed st op = Some st'"
  shows "stockNonNeg st'"
proof (cases op)
  case (GenerateBill newId billData)
  let ?nb = "billData\<lparr>billNumber := newBillNumber (bills st)\<rparr>"
  from assms(3) GenerateBill have
    c: "commit st (SetBill newId ?nb # concat (map (generateWrite (products st)) (items billData))) = Some st'"
    by (auto simp: handleGenerateBill_def Let_def split: option.splits)
  have "list_all writeNonNeg (concat (map (generateWrite (products st)) (items billData)))"
    using assms(1,2) GenerateBill
    by (intro list_all_concat_map generateWrite_nonNeg) (simp_all add: list_all_iff)
  then have "list_all writeNonNeg (SetBill newId ?nb # concat (map (generateWrite (products st)) (items billData)))"
    by (simp add: writeNonNeg_def)
  from commit_stockNonNeg [OF assms(1) this c] show ?thesis .
next
  case (EditBill billId updatedBillData originalBill)
  from assms(3) EditBill obtain ws where
    ws: "updateBillWrites (products st) (stockChangesOf originalBill updatedBillData) = Inr ws"
    and c: "commit st (ws @ [UpdateBill billId updatedBillData]) = Some st'"
    by (auto simp: handleUpdateBill_def split: sum.splits option.splits)
  from updateBillWrites_ok [OF ws] have "list_all writeNonNeg ws"
    by (auto simp: list_all_iff nonNegUpdate_writeNonNeg)
  then have "list_all writeNonNeg (ws @ [UpdateBill billId updatedBillData])"
    by (simp add: writeNonNeg_def)
  from commit_stockNonNeg [OF assms(1) this c] show ?thesis .
next
  case (DeleteBillOp b)
  from assms(3) DeleteBillOp have
    c: "commit st (concat (map (deleteBillWrite (products st)) (items b)) @ [DeleteBill (bill_id b)]) = Some st'"
    by (simp add: handleDeleteBill_def)
  have "list_all writeNonNeg (concat (map (deleteBillWrite (products st)) (items b)))"
    using assms(1,2) DeleteBillOp
    by (intro list_all_concat_map deleteBillWrite_nonNeg) (simp_all add: list_all_iff)
  then have "list_all writeNonNeg (concat (map (deleteBillWrite (products st)) (items b)) @ [DeleteBill (bill_id b)])"
    by (simp add: writeNonNeg_def)
  from commit_stockNonNeg [OF assms(1) this c] show ?thesis .
next
  case (AddPurchase fresh purchaseData)
  obtain ws its n where l: "addPurchaseLoop (products st) fresh 0 (pu_items purchaseData) = (ws, its, n)"
    by (cases "addPurchaseLoop (products st) fresh 0 (pu_items purchaseData)")
  from assms(3) AddPurchase l have
    c: "commit st (ws @ [SetPurchase (fresh n) (addPurchaseDoc st fresh purchaseData)]) = Some st'"
    by (simp add: handleAddPurchase_def)
  from addPurchaseLoop_nonNeg [OF assms(1), of "pu_items purchaseData" fresh 0] assms(2) AddPurchase l
  have "list_all writeNonNeg (ws @ [SetPurchase (fresh n) (addPurchaseDoc st fresh purchaseData)])"
    by (simp add: writeNonNeg_def)
  from commit_stockNonNeg [OF assms(1) this c] show ?thesis .
next
  case (EditPurchase fresh purchaseId updatedPurchaseData originalPurchase)
  let ?rev = "foldl (revertItem (products st)) [] (pu_items originalPurchase)"
  obtain m ws its n where l: "applyLoop (products st) fresh 0 ?rev (pu_items updatedPurchaseData) = (m, ws, its, n)"
    by (cases "applyLoop (products st) fresh 0 ?rev (pu_items updatedPurchaseData)") auto
  from assms(3) EditPurchase l have
    c: "commit st (ws @ commitStage m @ [UpdatePurchase purchaseId (updatedPurchaseData\<lparr>pu_items := its\<rparr>)]) = Some st'"
    by (simp add: handleUpdatePurchase_def)
  from applyLoop_nonNeg [of "pu_items updatedPurchaseData" "products st" fresh 0 ?rev] assms(2) EditPurchase l
  have "list_all writeNonNeg (ws @ commitStage m @ [UpdatePurchase purchaseId (updatedPurchaseData\<lparr>pu_items := its\<rparr>)])"
    by (simp add: writeNonNeg_def commitStage_nonNeg)
  from commit_stockNonNeg [OF assms(1) this c] show ?thesis .
next
  case (DeletePurchaseOp p)
  from assms(3) DeletePurchaseOp have
    c: "commit st (concat (map (deletePurchaseWrite (products st)) (pu_items p)) @ [DeletePurchase (pu_id p)]) = Some st'"
    by (simp add: handleDeletePurchase_def split: if_splits)
  have "list_all writeNonNeg (concat (map (deletePurchaseWrite (products st)) (pu_items p)))"
    using assms(1)
    by (intro list_all_concat_map deletePurchaseWrite_nonNeg)
  then have "list_all writeNonNeg (concat (map (deletePurchaseWrite (products st)) (pu_items p)) @ [DeletePurchase (pu_id p)])"
    by (simp add: writeNonNeg_def)
  from commit_stockNonNeg [OF assms(1) this c] show ?thesis .
qed

theorem committed_operations_keep_stock_non_negative_witness:
  "stockNonNeg store0
   \<and> quantitiesOk store0 (GenerateBill ''n1'' (bill0\<lparr>items := [itemX, itemY]\<rparr>))
   \<and> committed store0 (GenerateBill ''n1'' (bill0\<lparr>items := [itemX, itemY]\<rparr>))
       = Some \<lparr>products = [productP\<lparr>batches := [batchX, batchY\<lparr>stock := 9\<rparr>]\<rparr>],
               bills = [bill0\<lparr>bill_id := ''n1'', billNumber := ''B0001'',
                              items := [itemX, itemY]\<rparr>],
               purchases = []\<rparr>
   \<and> stockNonNeg \<lparr>products = [productP\<lparr>batches := [batchX, batchY\<lparr>stock := 9\<rparr>]\<rparr>],
               bills = [bill0\<lparr>bill_id := ''n1'', billNumber := ''B0001'',
                              items := [itemX, itemY]\<rparr>],
               purchases = []\<rparr>"
proof -
  have a: "stockNonNeg store0" by code_simp
  have b: "quantitiesOk store0 (GenerateBill ''n1'' (bill0\<lparr>items := [itemX, itemY]\<rparr>))"
    by code_simp
  have c: "committed store0 (GenerateBill ''n1'' (bill0\<lparr>items := [itemX, itemY]\<rparr>))
       = Some \<lparr>products = [productP\<lparr>batches := [batchX, batchY\<lparr>stock := 9\<rparr>]\<rparr>],
               bills = [bill0\<lparr>bill_id := ''n1'', billNumber := ''B0001'',
                              items := [itemX, itemY]\<rparr>],
               purchases = []\<rparr>"
    by code_simp
  from committed_operations_keep_stock_non_negative [OF a b c] a b c show ?thesis by blast
qed

text \<open>
  Claim C1 as stated fails: from a store with no negative stock, generating a bill that
  sells eleven units of a batch holding ten commits and leaves that batch at \<open>-1\<close>.
\<close>

theorem generate_oversell_commits_negative_stock:
  "stockNonNeg store0
   \<and> committed store0 (GenerateBill ''n1'' (bill0\<lparr>items := [itemX\<lparr>ci_quantity := 11\<rparr>]\<rparr>))
       = Some \<lparr>products = [productP\<lparr>batches := [batchX\<lparr>stock := - 1\<rparr>, batchY]\<rparr>],
               bills = [bill0\<lparr>bill_id := ''n1'', billNumber := ''B0001'',
                              items := [itemX\<lparr>ci_quantity := 11\<rparr>]\<rparr>],
               purchases = []\<rparr>
   \<and> \<not> stockNonNeg \<lparr>products = [productP\<lparr>batches := [batchX\<lparr>stock := - 1\<rparr>, batchY]\<rparr>],
               bills = [bill0\<lparr>bill_id := ''n1'', billNumber := ''B0001'',
                              items := [itemX\<lparr>ci_quantity := 11\<rparr>]\<rparr>],
               purchases = []\<rparr>"
  by code_simp


section \<open>Saving a purchase\<close>

lemma map_pid_replace:
  "(\<And>q. pid q = i \<Longrightarrow> pid (f q) = i) \<Longrightarrow>
   map pid (map (\<lambda>q. if pid q = i then f q else q) ps) = map pid ps"
  by (induction ps) simp_all

lemma hasProduct_replace:
  "(\<And>q. pid q = i \<Longrightarrow> pid (f q) = i) \<Longrightarrow>
   hasProduct (map (\<lambda>q. if pid q = i then f q else q) ps) j = hasProduct ps j"
  by (rule hasProduct_map_pid) (rule map_pid_replace)

lemma hasProduct_snoc: "hasProduct (ps @ [p]) j = (hasProduct ps j \<or> pid p = j)"
  by (auto simp: hasProduct_iff)

lemma findProduct_hasProduct: "findProduct ps i = Some p \<Longrightarrow> hasProduct ps i"
  by (simp add: findProduct_def hasProduct_def)

lemma apply_productWrite:
  assumes "productWriteOk ps w" and "\<And>j. hasProduct ps j \<Longrightarrow> hasProduct (products st) j"
  shows "\<exists>st'. apply_write st w = Some st'
           \<and> (\<forall>j. hasProduct (products st) j \<longrightarrow> hasProduct (products st') j)
           \<and> bills st' = bills st \<and> purchases st' = purchases st"
proof (cases w)
  case (SetProduct i p)
  then show ?thesis by (simp add: hasProduct_replace hasProduct_snoc)
next
  case (UpdateBatches i bs)
  with assms have h: "hasProduct (products st) i"
    by (simp add: productWriteOk_def)
  with UpdateBatches show ?thesis by (simp add: hasProduct_replace)
next
  case (UnionBatch i b)
  with assms have h: "hasProduct (products st) i"
    by (simp add: productWriteOk_def)
  with UnionBatch show ?thesis by (simp add: hasProduct_replace)
qed (use assms in \<open>simp_all add: productWriteOk_def\<close>)

lemma commit_productWrites:
  "list_all (productWriteOk ps) ws \<Longrightarrow>
   (\<And>j. hasProduct ps j \<Longrightarrow> hasProduct (products st) j) \<Longrightarrow>
   \<exists>st'. commit st ws = Some st' \<and> bills st' = bills st \<and> purchases st' = purchases st"
proof (induction ws arbitrary: st)
  case Nil
  then show ?case by simp
next
  case (Cons w ws)
  from Cons.prems have w: "productWriteOk ps w" and ws: "list_all (productWriteOk ps) ws"
    by simp_all
  from apply_productWrite [OF w Cons.prems(2)] obtain st1 where
    st1: "apply_write st w = Some st1"
      "\<And>j. hasProduct (products st) j \<Longrightarrow> hasProduct (products st1) j"
      "bills st1 = bills st" "purchases st1 = purchases st"
    by blast
  from Cons.prems(2) st1(2) have "\<And>j. hasProduct ps j \<Longrightarrow> hasProduct (products st1) j"
    by blast
  from Cons.IH [OF ws this] obtain st' where
    "commit st1 ws = Some st'" "bills st' = bills st1" "purchases st' = purchases st1"
    by blast
  with st1 show ?case by simp
qed

lemma addPurchaseLoop_writesOk:
  "list_all (productWriteOk ps) (fst (addPurchaseLoop ps fresh n its))"
proof (induction its arbitrary: n)
  case Nil
  then show ?case by simp
next
  case (Cons item rest)
  note ih = Cons.IH
  show ?case
  proof (cases "li_isNewProduct item")
    case True
    with ih [of "n + 2"] show ?thesis
      by (simp add: Let_def split_beta productWriteOk_def)
  next
    case new: False
    show ?thesis
    proof (cases "truthy (li_productId item)")
      case False
      with new ih [of n] show ?thesis by (simp add: split_beta)
    next
      case True
      show ?thesis
      proof (cases "findProduct ps (the (li_productId item))")
        case None
        with new True ih [of n] show ?thesis by simp
      next
        case (Some product)
        then have h: "hasProduct ps (the (li_productId item))"
          by (rule findProduct_hasProduct)
        show ?thesis
        proof (cases "find (\<lambda>b. batchNumber b = li_batchNumber item) (batches product)")
          case None
          with new True Some h ih [of "n + 1"] show ?thesis
            by (simp add: Let_def split_beta productWriteOk_def)
        next
          case (Some existingBatch)
          with new True \<open>findProduct ps (the (li_productId item)) = Some product\<close> h ih [of n]
          show ?thesis
            by (simp add: Let_def split_beta productWriteOk_def)
        qed
      qed
    qed
  qed
qed

lemma handleAddPurchase_commits:
  "\<exists>st'. handleAddPurchase st fresh purchaseData = Some st'"
proof -
  obtain ws its n where l: "addPurchaseLoop (products st) fresh 0 (pu_items purchaseData) = (ws, its, n)"
    by (cases "addPurchaseLoop (products st) fresh 0 (pu_items purchaseData)")
  from addPurchaseLoop_writesOk [of "products st" fresh 0 "pu_items purchaseData"] l
  have "list_all (productWriteOk (products st)) ws" by simp
  from commit_productWrites [OF this, of st] obtain st1 where "commit st ws = Some st1" by auto
  then show ?thesis using l by (simp add: handleAddPurchase_def commit_append)
qed

lemma addPurchaseLoop_skip:
  assumes "\<not> li_isNewProduct l" and "truthy (li_productId l)"
    and "findProduct ps (the (li_productId l)) = None"
  shows "addPurchaseLoop ps fresh n (xs @ l # ys) = addPurchaseLoop ps fresh n (xs @ ys)"
proof (induction xs arbitrary: n)
  case Nil
  from assms show ?case by simp
next
  case (Cons x xs)
  show ?case
    by (simp add: Cons.IH Let_def split: option.splits)
qed

lemma foldl_add_sum: "foldl (\<lambda>total item. total + f item) a xs = a + sum_list (map f xs)"
  for a :: real
  by (induction xs arbitrary: a) simp_all

lemma purchaseTotal_sum:
  "purchaseTotal its = sum_list (map (\<lambda>item. li_purchasePrice item * of_int (li_quantity item)) its)"
  by (simp add: purchaseTotal_def foldl_add_sum)

lemma setPurchase_result:
  "\<exists>st'. apply_write st (SetPurchase i d) = Some st' \<and> products st' = products st
         \<and> d\<lparr>pu_id := i\<rparr> \<in> set (purchases st')"
proof (cases "find (\<lambda>c. pu_id c = i) (purchases st)")
  case None
  then show ?thesis by simp
next
  case (Some c)
  then have "c \<in> set (purchases st) \<and> pu_id c = i"
    by (induction "purchases st" arbitrary: st) (auto simp: find_Some_iff)
  with Some show ?thesis by (auto simp: image_iff)
qed

text \<open>
  Claim C10. Let a submitted purchase hold a line with \<open>isNewProduct = false\<close> whose
  product id is present and matches no product of the snapshot. \<open>handleAddPurchase\<close>
  still commits; the products collection it leaves is the one it leaves for the same
  purchase without that line; the saved purchase document carries the items saved
  without that line, so the line is omitted; and its \<open>totalAmount\<close>, computed over the
  submitted items, is the total without the line plus the line's purchase price times
  its quantity.
\<close>

theorem addPurchase_unknown_product_line_is_dropped:
  assumes "\<not> li_isNewProduct l" and "truthy (li_productId l)"
    and "findProduct (products st) (the (li_productId l)) = None"
  shows "\<exists>st' st''.
           handleAddPurchase st fresh (purchaseData\<lparr>pu_items := xs @ l # ys\<rparr>) = Some st'
         \<and> handleAddPurchase st fresh (purchaseData\<lparr>pu_items := xs @ ys\<rparr>) = Some st''
         \<and> products st' = products st''
         \<and> addPurchaseDoc st fresh (purchaseData\<lparr>pu_items := xs @ l # ys\<rparr>) \<in> set (purchases st')
         \<and> pu_items (addPurchaseDoc st fresh (purchaseData\<lparr>pu_items := xs @ l # ys\<rparr>))
             = pu_items (addPurchaseDoc st fresh (purchaseData\<lparr>pu_items := xs @ ys\<rparr>))
         \<and> totalAmount (addPurchaseDoc st fresh (purchaseData\<lparr>pu_items := xs @ l # ys\<rparr>))
             = totalAmount (addPurchaseDoc st fresh (purchaseData\<lparr>pu_items := xs @ ys\<rparr>))
               + li_purchasePrice l * of_int (li_quantity l)"
proof -
  let ?pdL = "purchaseData\<lparr>pu_items := xs @ l # ys\<rparr>"
  let ?pd0 = "purchaseData\<lparr>pu_items := xs @ ys\<rparr>"
  obtain ws its n where l0: "addPurchaseLoop (products st) fresh 0 (xs @ ys) = (ws, its, n)"
    by (cases "addPurchaseLoop (products st) fresh 0 (xs @ ys)")
  with addPurchaseLoop_skip [OF assms, of fresh 0 xs ys]
  have lL: "addPurchaseLoop (products st) fresh 0 (xs @ l # ys) = (ws, its, n)" by simp
  let ?docL = "addPurchaseDoc st fresh ?pdL"
  let ?doc0 = "addPurchaseDoc st fresh ?pd0"
  have idL: "?docL\<lparr>pu_id := fresh n\<rparr> = ?docL" using lL by (simp add: addPurchaseDoc_def)
  have itemsEq: "pu_items ?docL = pu_items ?doc0" using l0 lL by (simp add: addPurchaseDoc_def)
  have total: "totalAmount ?docL = totalAmount ?doc0 + li_purchasePrice l * of_int (li_quantity l)"
    using l0 lL by (simp add: addPurchaseDoc_def purchaseTotal_sum)
  from addPurchaseLoop_writesOk [of "products st" fresh 0 "xs @ ys"] l0
  have "list_all (productWriteOk (products st)) ws" by simp
  from commit_productWrites [OF this, of st] obtain st1 where st1: "commit st ws = Some st1"
    by auto
  from setPurchase_result [of st1 "fresh n" ?docL] idL obtain st' where
    st': "apply_write st1 (SetPurchase (fresh n) ?docL) = Some st'" "products st' = products st1"
      "?docL \<in> set (purchases st')"
    by auto
  from setPurchase_result [of st1 "fresh n" ?doc0] obtain st'' where
    st'': "apply_write st1 (SetPurchase (fresh n) ?doc0) = Some st''" "products st'' = products st1"
    by auto
  have "handleAddPurchase st fresh ?pdL = Some st'"
    using lL st1 st'(1) by (simp add: handleAddPurchase_def commit_append)
  moreover have "handleAddPurchase st fresh ?pd0 = Some st''"
    using l0 st1 st''(1) by (simp add: handleAddPurchase_def commit_append)
  ultimately show ?thesis using st'(2,3) st''(2) itemsEq total by auto
qed

theorem addPurchase_unknown_product_line_is_dropped_witness:
  "\<not> li_isNewProduct lineGhost \<and> truthy (li_productId lineGhost)
   \<and> findProduct (products store0) (the (li_productId lineGhost)) = None
   \<and> (\<exists>st' st''.
           handleAddPurchase store0 fresh0 (purchase0\<lparr>pu_items := [lineX] @ lineGhost # []\<rparr>) = Some st'
         \<and> handleAddPurchase store0 fresh0 (purchase0\<lparr>pu_items := [lineX] @ []\<rparr>) = Some st''
         \<and> products st' = products st''
         \<and> addPurchaseDoc store0 fresh0 (purchase0\<lparr>pu_items := [lineX] @ lineGhost # []\<rparr>) \<in> set (purchases st')
         \<and> pu_items (addPurchaseDoc store0 fresh0 (purchase0\<lparr>pu_items := [lineX] @ lineGhost # []\<rparr>))
             = pu_items (addPurchaseDoc store0 fresh0 (purchase0\<lparr>pu_items := [lineX] @ []\<rparr>))
         \<and> totalAmount (addPurchaseDoc store0 fresh0 (purchase0\<lparr>pu_items := [lineX] @ lineGhost # []\<rparr>))
             = totalAmount (addPurchaseDoc store0 fresh0 (purchase0\<lparr>pu_items := [lineX] @ []\<rparr>))
               + li_purchasePrice lineGhost * of_int (li_quantity lineGhost))"
proof -
  have a: "\<not> li_isNewProduct lineGhost" by code_simp
  have b: "truthy (li_productId lineGhost)" by code_simp
  have c: "findProduct (products store0) (the (li_productId lineGhost)) = None" by code_simp
  from addPurchase_unknown_product_line_is_dropped
         [OF a b c, where fresh = fresh0 and purchaseData = purchase0 and xs = "[lineX]" and ys = "[]"] a b c
  show ?thesis by blast
qed

lemma batchNumber_restock [simp]: "batchNumber (restock item k b) = batchNumber b"
  by (simp add: restock_def)

lemma bid_restock [simp]: "bid (restock item k b) = bid b"
  by (simp add: restock_def)





lemma find_None_filter: "find P bs = None \<Longrightarrow> filter P bs = []"
  by (induction bs) (auto split: if_splits)







text \<open>
  Claim C7 at a purchase with two lines on the same product, each matching an existing
  batch: \<open>handleAddPurchase\<close> stages one \<open>update\<close> of the whole \<open>batches\<close> array per
  line, each computed from the snapshot, and the commit applies them in order. The
  array of the second line replaces the array of the first, so the batch of the first
  line keeps its stock, price, cost and expiry, although the saved purchase lists both
  lines. (For a purchase with one such line, \<open>addPurchase_single_hit\<close> gives the effect
  the claim states.)
\<close>

theorem addPurchase_two_lines_same_product_loses_first:
  "handleAddPurchase store0 fresh0 (purchase0\<lparr>pu_items := [lineX, lineY]\<rparr>)
     = Some \<lparr>products =
               [productP\<lparr>batches :=
                  [batchX,
                   batchY\<lparr>stock := 13, mrp := 33, purchasePrice := 26, expiryDate := ''2027-09''\<rparr>]\<rparr>],
             bills = [],
             purchases =
               [purchase0\<lparr>pu_id := ''id0'', totalAmount := 110,
                          pu_items := [lineX\<lparr>li_batchId := Some ''bx''\<rparr>,
                                       lineY\<lparr>li_batchId := Some ''by''\<rparr>]\<rparr>]\<rparr>"
  by code_simp

section \<open>The arithmetic of a saved bill\<close>

lemma updateCartItem_ok:
  "list_all lineTotalOk cart \<Longrightarrow> list_all lineTotalOk (updateCartItem ps cart batchId quantity)"
  by (induction cart) (auto simp: updateCartItem_def lineTotalOk_def split: option.splits)

lemma handleAddToCart_ok:
  "list_all lineTotalOk cart \<Longrightarrow> list_all lineTotalOk (handleAddToCart ps expired cart product batch)"
  by (auto simp: handleAddToCart_def updateCartItem_ok newCartItem_def lineTotalOk_def
           split: option.splits)

lemma removeFromCart_ok:
  "list_all lineTotalOk cart \<Longrightarrow> list_all lineTotalOk (removeFromCart cart batchId)"
  by (simp add: removeFromCart_def list_all_iff)

lemma cartStep_ok: "list_all lineTotalOk cart \<Longrightarrow> list_all lineTotalOk (cartStep cart e)"
  by (cases e) (simp_all add: handleAddToCart_ok updateCartItem_ok removeFromCart_ok)

lemma cartSteps_ok:
  "list_all lineTotalOk cart \<Longrightarrow> list_all lineTotalOk (foldl cartStep cart events)"
  by (induction events arbitrary: cart) (simp_all add: cartStep_ok)

lemma foldl_totalsStep:
  "foldl totalsStep (s, g) cart =
     (s + (\<Sum>item\<leftarrow>cart. ci_total item / (1 + ci_gst item / 100)),
      g + (\<Sum>item\<leftarrow>cart. ci_total item - ci_total item / (1 + ci_gst item / 100)))"
  by (induction cart arbitrary: s g) (simp_all add: totalsStep_def Let_def)

lemma cartTotals_eq:
  "cartTotals cart =
     ((\<Sum>item\<leftarrow>cart. ci_total item / (1 + ci_gst item / 100)),
      (\<Sum>item\<leftarrow>cart. ci_total item - ci_total item / (1 + ci_gst item / 100)),
      (\<Sum>item\<leftarrow>cart. ci_total item / (1 + ci_gst item / 100))
        + (\<Sum>item\<leftarrow>cart. ci_total item - ci_total item / (1 + ci_gst item / 100)))"
  by (simp add: cartTotals_def foldl_totalsStep)

text \<open>
  Claim C9. Take a cart that starts empty, or from the items of the bill being edited
  when each of those has total = mrp times quantity, and goes through any sequence of
  \<open>handleAddToCart\<close>, \<open>updateCartItem\<close> and \<open>removeFromCart\<close>. In the bill data that
  \<open>handleSaveBill\<close> builds from it, every item's total is its mrp times its quantity,
  \<open>subTotal\<close> is the sum of \<open>total / (1 + gst / 100)\<close> over the items, \<open>totalGst\<close> is the sum
  of the item totals minus those base prices, and \<open>grandTotal\<close> is \<open>subTotal + totalGst\<close>.
  Numbers are exact reals here; a rate of \<open>-100\<close> percent, where the division is by
  zero, is excluded.
\<close>

theorem saved_bill_arithmetic:
  assumes "list_all lineTotalOk cart0"
    and "cart = foldl cartStep cart0 events"
    and "list_all (\<lambda>item. ci_gst item \<noteq> - 100) cart"
    and "saveBillData editingBill now customer cart = Some b"
  shows "items b = cart
       \<and> list_all (\<lambda>item. ci_total item = ci_mrp item * of_int (ci_quantity item)) (items b)
       \<and> subTotal b = (\<Sum>item\<leftarrow>items b. ci_total item / (1 + ci_gst item / 100))
       \<and> totalGst b = (\<Sum>item\<leftarrow>items b. ci_total item - ci_total item / (1 + ci_gst item / 100))
       \<and> grandTotal b = subTotal b + totalGst b"
proof -
  have ok: "list_all lineTotalOk cart" using assms(1,2) by (simp add: cartSteps_ok)
  from assms(4) have b: "items b = cart"
    "subTotal b = fst (cartTotals cart)" "totalGst b = fst (snd (cartTotals cart))"
    "grandTotal b = snd (snd (cartTotals cart))"
    by (auto simp: saveBillData_def Let_def split_beta split: if_splits option.splits)
  from ok have "list_all (\<lambda>item. ci_total item = ci_mrp item * of_int (ci_quantity item)) cart"
    by (simp add: lineTotalOk_def [abs_def])
  with b show ?thesis by (simp add: cartTotals_eq)
qed

theorem saved_bill_arithmetic_witness:
  "list_all lineTotalOk []
   \<and> list_all (\<lambda>item. ci_gst item \<noteq> - 100) (foldl cartStep [] cartEvents0)
   \<and> saveBillData None ''2026-01-05'' [] (foldl cartStep [] cartEvents0)
       = Some (bill0\<lparr>date := ''2026-01-05'',
                      items := [itemX\<lparr>ci_quantity := 3, ci_total := 60\<rparr>, itemY],
                      subTotal := 1125 / 14, totalGst := 135 / 14, grandTotal := 90\<rparr>)
   \<and> list_all (\<lambda>item. ci_total item = ci_mrp item * of_int (ci_quantity item))
        [itemX\<lparr>ci_quantity := 3, ci_total := 60\<rparr>, itemY]"
proof -
  let ?b = "bill0\<lparr>date := ''2026-01-05'',
                      items := [itemX\<lparr>ci_quantity := 3, ci_total := 60\<rparr>, itemY],
                      subTotal := 1125 / 14, totalGst := 135 / 14, grandTotal := 90\<rparr>"
  have a: "list_all lineTotalOk []" by simp
  have c: "list_all (\<lambda>item. ci_gst item \<noteq> - 100) (foldl cartStep [] cartEvents0)"
    by code_simp
  have s: "saveBillData None ''2026-01-05'' [] (foldl cartStep [] cartEvents0) = Some ?b"
    by code_simp
  have i: "items ?b = [itemX\<lparr>ci_quantity := 3, ci_total := 60\<rparr>, itemY]" by simp
  from saved_bill_arithmetic [OF a refl c s] a c s show ?thesis unfolding i by blast
qed

section \<open>Editing a bill: netting and applying the changes\<close>

lemma map_of_mapSet: "map_of (mapSet m k v) k' = (if k' = k then Some v else map_of m k')"
  by (induction m) auto

lemma keys_mapSet:
  "map fst (mapSet m k v) = (if k \<in> set (map fst m) then map fst m else map fst m @ [k])"
proof (induction m)
  case Nil
  show ?case by simp
next
  case (Cons a m)
  obtain k' v' where a: "a = (k', v')" by (cases a)
  show ?case using Cons a by (cases "k' = k") simp_all
qed

lemma distinct_mapSet: "distinct (map fst m) \<Longrightarrow> distinct (map fst (mapSet m k v))"
  by (simp add: keys_mapSet)

lemma find_app:
  "find P (xs @ ys) = (case find P xs of None \<Rightarrow> find P ys | Some x \<Rightarrow> Some x)"
  by (induction xs) simp_all

lemma foldl_addChange:
  "map_of (foldl (\<lambda>m x. addChange m (fst x) (snd x)) [] xs) k =
     (case find (\<lambda>x. ci_batchId (snd x) = k) xs of
        None \<Rightarrow> None
      | Some x \<Rightarrow> Some (ci_productId (snd x), signedSum xs k))"
proof (induction xs rule: rev_induct)
  case Nil
  show ?case by simp
next
  case (snoc x xs)
  let ?m = "foldl (\<lambda>m x. addChange m (fst x) (snd x)) [] xs"
  show ?case
  proof (cases "ci_batchId (snd x) = k")
    case False
    with snoc show ?thesis
      by (simp add: addChange_def Let_def map_of_mapSet signedSum_def find_app split: option.splits)
  next
    case True
    show ?thesis
    proof (cases "find (\<lambda>x. ci_batchId (snd x) = k) xs")
      case None
      with snoc True find_None_filter [OF None] show ?thesis
        by (simp add: addChange_def Let_def map_of_mapSet signedSum_def find_app)
    next
      case (Some y)
      with snoc True show ?thesis
        by (simp add: addChange_def Let_def map_of_mapSet signedSum_def find_app)
    qed
  qed
qed

lemma foldl_addChange_distinct:
  "distinct (map fst (foldl (\<lambda>m x. addChange m (fst x) (snd x)) [] xs))"
  by (induction xs rule: rev_induct) (simp_all add: addChange_def Let_def distinct_mapSet)

lemma stockChangesOf_signed:
  "stockChangesOf originalBill updatedBillData =
     foldl (\<lambda>m x. addChange m (fst x) (snd x)) []
       (map (Pair 1) (items originalBill) @ map (Pair (- 1)) (items updatedBillData))"
  by (simp add: stockChangesOf_def foldl_map)

lemma signedSum_netDelta:
  "signedSum (map (Pair 1) xs @ map (Pair (- 1)) ys) k = netDelta xs ys k"
proof -
  have a: "(\<Sum>x\<leftarrow>filter (\<lambda>x. ci_batchId (snd x) = k) (map (Pair s) zs). ci_quantity (snd x) * fst x)
           = s * (\<Sum>item\<leftarrow>filter (\<lambda>item. ci_batchId item = k) zs. ci_quantity item)" for s zs
    by (induction zs) (simp_all add: algebra_simps)
  show ?thesis by (simp add: signedSum_def netDelta_def a)
qed

lemma find_signed:
  "find (\<lambda>x. ci_batchId (snd x) = k) (map (Pair (1::int)) xs @ map (Pair (- 1)) ys)
     = map_option (\<lambda>item. (if find (\<lambda>item. ci_batchId item = k) xs = None then - 1 else 1, item))
         (find (\<lambda>item. ci_batchId item = k) (xs @ ys))"
proof -
  have a: "find (\<lambda>x. ci_batchId (snd x) = k) (map (Pair s) zs)
             = map_option (Pair s) (find (\<lambda>item. ci_batchId item = k) zs)" for s :: int and zs
    by (induction zs) simp_all
  show ?thesis
    by (cases "find (\<lambda>item. ci_batchId item = k) xs") (simp_all add: find_app a)
qed

text \<open>
  The netting of \<open>handleUpdateBill\<close>: one entry per batch id of either list, holding the
  product id of the first line on that batch and the net change.
\<close>

lemma stockChangesOf_net:
  "map_of (stockChangesOf originalBill updatedBillData) k =
     (case find (\<lambda>item. ci_batchId item = k) (items originalBill @ items updatedBillData) of
        None \<Rightarrow> None
      | Some item \<Rightarrow>
          Some (ci_productId item, netDelta (items originalBill) (items updatedBillData) k))"
  unfolding stockChangesOf_signed foldl_addChange find_signed signedSum_netDelta
  by (simp split: option.splits)

lemma stockChangesOf_distinct:
  "distinct (map fst (stockChangesOf originalBill updatedBillData))"
  unfolding stockChangesOf_signed by (rule foldl_addChange_distinct)

text \<open>
  Claim C2 at an edit that changes two batches of the same product. The bill sold five
  units of batch X and five of batch Y (both now at stock 5); the edit lowers both to
  three, so the net change is \<open>+2\<close> for each (\<open>stockChangesOf_net\<close>). \<open>handleUpdateBill\<close>
  stages, per changed batch, an \<open>update\<close> of the whole \<open>batches\<close> array computed from the
  snapshot; the commit applies them in order and the second array replaces the first.
  The edit is committed and reported as a success with X still at 5 and only Y at 7,
  where the claim has both at 7.
\<close>

theorem updateBill_two_batches_same_product_loses_first:
  "handleUpdateBill storeSold ''b2''
     (billB2\<lparr>items := [itemX\<lparr>ci_quantity := 3\<rparr>, itemY\<lparr>ci_quantity := 3\<rparr>]\<rparr>) billB2
   = (\<lparr>products = [productP\<lparr>batches := [batchX\<lparr>stock := 5\<rparr>, batchY\<lparr>stock := 7\<rparr>]\<rparr>],
       bills = [billB2\<lparr>items := [itemX\<lparr>ci_quantity := 3\<rparr>, itemY\<lparr>ci_quantity := 3\<rparr>]\<rparr>],
       purchases = []\<rparr>,
      Inr (billB2\<lparr>items := [itemX\<lparr>ci_quantity := 3\<rparr>, itemY\<lparr>ci_quantity := 3\<rparr>]\<rparr>))"
  by code_simp

text \<open>
  The example of the specification, one batch changed: the bill sold five units of
  batch X (stock 10 to 5), the edit to three units leaves X at 7.
\<close>

lemma updateBill_edit_reconciliation_example:
  "handleUpdateBill
     \<lparr>products = [productP\<lparr>batches := [batchX\<lparr>stock := 5\<rparr>, batchY]\<rparr>], bills = [billB1],
      purchases = []\<rparr>
     ''b1'' (billB1\<lparr>items := [itemX\<lparr>ci_quantity := 3\<rparr>]\<rparr>) billB1
   = (\<lparr>products = [productP\<lparr>batches := [batchX\<lparr>stock := 7\<rparr>, batchY]\<rparr>],
       bills = [billB1\<lparr>items := [itemX\<lparr>ci_quantity := 3\<rparr>]\<rparr>], purchases = []\<rparr>,
      Inr (billB1\<lparr>items := [itemX\<lparr>ci_quantity := 3\<rparr>]\<rparr>))"
  by code_simp

section \<open>Editing a purchase: revert, apply, commit\<close>




lemma findProduct_map_pres:
  "(\<And>q. pid (V q) = pid q) \<Longrightarrow> findProduct (map V ps) i = map_option V (findProduct ps i)"
  unfolding findProduct_def by (induction ps) simp_all

lemma mapInv_entry:
  "mapInv ps m \<Longrightarrow> map_of m i = Some p \<Longrightarrow>
     \<exists>q. findProduct ps i = Some q \<and> p = q\<lparr>batches := batches p\<rparr>"
proof -
  assume inv: "mapInv ps m" and mp: "map_of m i = Some p"
  from mp have "(i, p) \<in> set m" by (rule map_of_SomeD)
  with inv have "copyOf ps (i, p)" by (auto simp: mapInv_def list_all_iff)
  then show ?thesis by (auto simp: copyOf_def split: option.splits)
qed

lemma mapInv_pid: "mapInv ps m \<Longrightarrow> map_of m i = Some p \<Longrightarrow> pid p = i"
proof -
  assume "mapInv ps m" and "map_of m i = Some p"
  from mapInv_entry [OF this] obtain q where q: "findProduct ps i = Some q" "p = q\<lparr>batches := batches p\<rparr>"
    by blast
  from q(2) have "pid p = pid q" by (metis product.select_convs(1) product.surjective product.update_convs(7))
  with findProduct_Some [OF q(1)] show ?thesis by simp
qed

lemma view_viewOf: "view ps m = map (viewOf m) ps"
  by (simp add: view_def viewOf_def [abs_def])

lemma pid_viewOf: "mapInv ps m \<Longrightarrow> pid (viewOf m q) = pid q"
  by (auto simp: viewOf_def mapInv_pid split: option.splits)

lemma findProduct_view:
  assumes "mapInv ps m"
  shows "findProduct (view ps m) i =
           (case map_of m i of Some p \<Rightarrow> Some p | None \<Rightarrow> findProduct ps i)"
proof -
  have a: "findProduct (view ps m) i = map_option (viewOf m) (findProduct ps i)"
    unfolding view_viewOf by (rule findProduct_map_pres) (rule pid_viewOf [OF assms])
  show ?thesis
  proof (cases "findProduct ps i")
    case None
    have "map_of m i = None"
    proof (cases "map_of m i")
      case (Some p)
      from mapInv_entry [OF assms Some] None show ?thesis by simp
    qed simp
    with a None show ?thesis by simp
  next
    case (Some q)
    then have "pid q = i" using findProduct_Some by blast
    with a Some show ?thesis by (simp add: viewOf_def split: option.splits)
  qed
qed

lemma getMutableProduct_fst:
  "mapInv ps m \<Longrightarrow> fst (getMutableProduct ps m i) = findProduct (view ps m) i"
  by (simp add: getMutableProduct_def findProduct_view split: option.splits)




















lemma pid_clampCopy [simp]: "pid (clampCopy m q) = pid q"
  by (simp add: clampCopy_def split: option.splits)










text \<open>
  The edit works on the current stock, not on the stock at the time of the original
  save: with one unit of batch Y sold since the purchase (stock 3), the edit from 4 to
  6 leaves \<open>3 - 4 + 6 = 5\<close>.
\<close>

lemma updatePurchase_uses_current_stock_example:
  "map_option products
     (handleUpdatePurchase
        (storePurchased\<lparr>products := [productP\<lparr>batches := [batchX, batchY\<lparr>stock := 3\<rparr>]\<rparr>]\<rparr>)
        fresh0 ''pu1'' purchaseY6 purchaseY)
   = Some [productP\<lparr>batches :=
             [batchX, batchY\<lparr>stock := 5, mrp := 33, purchasePrice := 26,
                             expiryDate := ''2027-09''\<rparr>]\<rparr>]"
  by code_simp

section \<open>Editing a bill: changes on different products\<close>

lemma commit_distinct_updates:
  "distinct (map fst us) \<Longrightarrow> list_all (\<lambda>u. hasProduct (products st) (fst u)) us \<Longrightarrow>
   commit st (map (\<lambda>u. UpdateBatches (fst u) (snd u)) us)
     = Some (st\<lparr>products := map (setBatches us) (products st)\<rparr>)"
proof (induction us arbitrary: st)
  case Nil
  have "setBatches [] = (\<lambda>q. q)" by (rule ext) (simp add: setBatches_def)
  then show ?case by simp
next
  case (Cons u us)
  obtain i bs where u: "u = (i, bs)" by (cases u)
  let ?f = "\<lambda>q. if pid q = i then q\<lparr>batches := bs\<rparr> else q"
  let ?st1 = "st\<lparr>products := map ?f (products st)\<rparr>"
  from Cons.prems(2) u have h: "hasProduct (products st) i" by simp
  then have a: "apply_write st (UpdateBatches i bs) = Some ?st1" by simp
  have hp: "hasProduct (map ?f (products st)) j = hasProduct (products st) j" for j
    by (rule hasProduct_replace) simp
  from Cons.prems(2) have "list_all (\<lambda>u. hasProduct (products ?st1) (fst u)) us"
    by (simp add: hp list_all_iff)
  from Cons.IH [OF _ this] Cons.prems(1)
  have c: "commit ?st1 (map (\<lambda>u. UpdateBatches (fst u) (snd u)) us)
             = Some (?st1\<lparr>products := map (setBatches us) (products ?st1)\<rparr>)"
    by simp
  from Cons.prems(1) u have ni: "map_of us i = None" by (simp add: map_of_eq_None_iff)
  have "setBatches us (?f q) = setBatches (u # us) q" for q
    using u ni by (simp add: setBatches_def)
  then have "map (setBatches us) (products ?st1) = map (setBatches (u # us)) (products st)"
    by simp
  with a c u show ?case by simp
qed

lemma updateBillWrites_shape:
  "updateBillWrites ps cs = Inr ws \<Longrightarrow>
     ws = map (\<lambda>u. UpdateBatches (fst u) (snd u))
            (map (changeWrite ps) (filter (\<lambda>e. snd (snd e) \<noteq> 0) cs))"
proof (induction ps cs arbitrary: ws rule: updateBillWrites.induct)
  case (1 ps)
  then show ?case by simp
next
  case (2 ps batchId productId change rest)
  show ?case
  proof (cases "change = 0")
    case True
    with 2 show ?thesis by simp
  next
    case False
    with 2(3) obtain product where Some: "findProduct ps productId = Some product"
      by (cases "findProduct ps productId") simp_all
    let ?nb = "map (\<lambda>b. if bid b = batchId then b\<lparr>stock := stock b + change\<rparr> else b) (batches product)"
    from 2(3) False Some have neg: "\<not> list_ex (\<lambda>b. stock b < 0) ?nb"
      by (auto split: if_splits)
    with 2(3) False Some obtain ws' where
      ws': "updateBillWrites ps rest = Inr ws'" "ws = UpdateBatches productId ?nb # ws'"
      by (auto split: sum.splits)
    note ih = 2(2) [OF False Some refl neg ws'(1)]
    with ws'(2) False Some show ?thesis
      by (simp add: changeWrite_def changeBatches_def)
  qed
qed

lemma pid_setBatches [simp]: "pid (setBatches us q) = pid q"
  by (simp add: setBatches_def split: option.splits)

text \<open>
  When no two changed batches of a bill edit belong to the same product, the edit that
  passes the checks applies every net change: each product with a changed batch gets
  the batches of the snapshot with that change.
\<close>

lemma updateBill_applies_changes_of_distinct_products:
  assumes ok: "updateBillWrites (products st) (stockChangesOf originalBill updatedBillData) = Inr ws"
    and dt: "distinct (touchedIds (stockChangesOf originalBill updatedBillData))"
    and ex: "find (\<lambda>c. bill_id c = billId) (bills st) \<noteq> None"
    and e: "(batchId, productId, change) \<in> set (stockChangesOf originalBill updatedBillData)"
      "change \<noteq> 0"
    and p: "findProduct (products st) productId = Some p"
  shows "\<exists>st'. handleUpdateBill st billId updatedBillData originalBill
                 = (st', Inr (updatedBillData\<lparr>bill_id := billId\<rparr>))
           \<and> findProduct (products st') productId
               = Some (p\<lparr>batches := changeBatches batchId change (batches p)\<rparr>)"
proof -
  let ?ps = "products st"
  let ?cs = "stockChangesOf originalBill updatedBillData"
  let ?us = "map (changeWrite ?ps) (filter (\<lambda>e. snd (snd e) \<noteq> 0) ?cs)"
  have ws: "ws = map (\<lambda>u. UpdateBatches (fst u) (snd u)) ?us"
    by (rule updateBillWrites_shape [OF ok])
  have keys: "map fst ?us = touchedIds ?cs"
    by (simp add: touchedIds_def changeWrite_def comp_def)
  with dt have dk: "distinct (map fst ?us)" by simp
  from updateBillWrites_ok [OF ok] have "list_all (onlyUpdates ?ps) ws" by simp
  then have hs: "list_all (\<lambda>u. hasProduct ?ps (fst u)) ?us"
    unfolding ws by (simp add: list_all_iff onlyUpdates_def)
  let ?st1 = "st\<lparr>products := map (setBatches ?us) ?ps\<rparr>"
  from commit_distinct_updates [OF dk hs] ws have c1: "commit st ws = Some ?st1" by simp
  from ex obtain st' where c2: "apply_write ?st1 (UpdateBill billId updatedBillData) = Some st'"
    and p2: "products st' = products ?st1"
    by auto
  have run: "handleUpdateBill st billId updatedBillData originalBill
               = (st', Inr (updatedBillData\<lparr>bill_id := billId\<rparr>))"
    using ok c1 c2 by (simp add: handleUpdateBill_def commit_append)
  have "(productId, changeBatches batchId change (batches p)) \<in> set ?us"
  proof -
    from e have "(batchId, productId, change) \<in> set (filter (\<lambda>e. snd (snd e) \<noteq> 0) ?cs)" by simp
    then have "changeWrite ?ps (batchId, productId, change) \<in> set ?us" unfolding set_map by (rule imageI)
    then show ?thesis using p by (simp add: changeWrite_def)
  qed
  with dk have mo: "map_of ?us productId = Some (changeBatches batchId change (batches p))"
    by (rule map_of_is_SomeI)
  have pi: "pid p = productId" using findProduct_Some [OF p] by simp
  have "findProduct (map (setBatches ?us) ?ps) productId = map_option (setBatches ?us) (findProduct ?ps productId)"
    by (rule findProduct_map_pres) simp
  with p mo pi have "findProduct (products ?st1) productId
                       = Some (p\<lparr>batches := changeBatches batchId change (batches p)\<rparr>)"
    by (simp add: setBatches_def)
  with run p2 show ?thesis by (intro exI [of _ st']) simp
qed

end
